theory Spec2Isabelle
  imports Main
begin

section \<open>Ledger signing orchestration (src/util/ledger/index.ts)\<close>

text \<open>
  The module drives a hardware signer through asynchronous calls. Every call that leaves
  the module (the device, the @ton/core library, the backend reached through callApi) is a
  field of an environment record; a call that may reject or throw returns a sum, with
  \<open>Inl\<close> the value thrown. An awaited call is a plain function call: the module never runs
  two of them against the device at once.
\<close>

subsection \<open>Thrown values and truthiness\<close>

text \<open>
  \<open>Error msg\<close> is \<open>new Error(msg)\<close> raised by the module itself, \<open>ApiUserRejectsError\<close> the
  class of api/errors, and \<open>External sc msg\<close> any value thrown by a collaborator, with its
  \<open>statusCode\<close> property when it has one.
\<close>

datatype thrown = Error string | ApiUserRejectsError | External "nat option" string

fun statusCode :: "thrown \<Rightarrow> nat option" where
  "statusCode (External sc msg) = sc"
| "statusCode (Error msg) = None"
| "statusCode ApiUserRejectsError = None"

text \<open>StatusCodes.CONDITIONS_OF_USE_NOT_SATISFIED of @ledgerhq/errors.\<close>

definition CONDITIONS_OF_USE_NOT_SATISFIED :: nat where
  "CONDITIONS_OF_USE_NOT_SATISFIED = 0x6985"

text \<open>A possibly absent string is truthy when it is present and not empty.\<close>

fun truthy :: "string option \<Rightarrow> bool" where
  "truthy None = False"
| "truthy (Some s) = (s \<noteq> [])"

text \<open>\<open>!seqno\<close> on \<open>number | undefined\<close>: true for undefined and for 0.\<close>

fun seqnoMissing :: "int option \<Rightarrow> bool" where
  "seqnoMissing None = True"
| "seqnoMissing (Some n) = (n = 0)"

subsection \<open>Constants of the module\<close>

definition ATTEMPTS :: nat where "ATTEMPTS = 10"
definition PAUSE :: nat where "PAUSE = 125"
definition VERSION :: string where "VERSION = ''v4R2''"
definition CHAIN :: int where "CHAIN = 0"
definition IS_BOUNCEABLE :: bool where "IS_BOUNCEABLE = False"

text \<open>SendMode of @ton/core.\<close>

definition CARRY_ALL_REMAINING_BALANCE :: nat where "CARRY_ALL_REMAINING_BALANCE = 128"
definition PAY_GAS_SEPARATELY :: nat where "PAY_GAS_SEPARATELY = 1"
definition IGNORE_ERRORS :: nat where "IGNORE_ERRORS = 2"

subsection \<open>Data\<close>

text \<open>
  The payload of an ApiDappTransfer, by its \<open>type\<close> tag. \<open>OtherPayload tag\<close> is a payload
  whose tag is none of the four the switch names. The fields of the two transfer
  variants are in the order of the destructuring in the source: queryId, newOwner (or
  amount, destination), responseDestination, customPayload, forwardAmount, forwardPayload.
\<close>

datatype api_payload =
    CommentPayload string
  | NftTransferPayload int string string "string option" int "string option"
  | TokensTransferPayload int int string string "string option" int "string option"
  | UnknownPayload string
  | OtherPayload string

record api_dapp_transfer =
  toAddress :: string
  amount :: int
  payload :: "api_payload option"
  stateInit :: "string option"

text \<open>TonPayloadFormat of @ton-community/ton-ledger, over addresses \<open>'a\<close> and cells \<open>'c\<close>.\<close>

datatype ('a, 'c) ton_payload =
    LedgerComment string
  | LedgerNftTransfer int 'a 'a "'c option" int "'c option"
  | LedgerJettonTransfer int int 'a 'a "'c option" int "'c option"

text \<open>The object handed to \<open>tonTransport.signTransaction\<close>.\<close>

record ('a, 'c, 's) sign_request =
  to :: 'a
  sendMode :: nat
  seqno :: int
  timeout :: int
  bounce :: bool
  req_amount :: int
  req_payload :: "('a, 'c) ton_payload option"
  req_stateInit :: "'s option"

record tx_params =
  tx_amount :: int
  fromAddress :: string
  tx_toAddress :: string
  comment :: "string option"
  fee :: "int option"
  slug :: string
  tx_type :: "string option"

record api_signed_transfer =
  base64 :: string
  st_seqno :: int
  params :: tx_params

subsection \<open>Collaborators\<close>

text \<open>
  \<open>signTransaction n path request\<close> is the outcome of the \<open>n\<close>-th call (from 0) that one run
  makes to \<open>tonTransport.signTransaction\<close>, already encoded by \<open>toBoc().toString('base64')\<close>:
  the device is stateful, and the position of a call in the run stands for its state.
  \<open>dateNow k\<close> is the \<open>k\<close>-th reading of \<open>Date.now()\<close>. The constants of
  api/blockchains/ton/constants and config, and \<open>isValidLedgerComment\<close> of ./utils, are
  fields too: their declarations are not part of this module.
\<close>

record ('a, 'c, 's) env =
  Address_isFriendly :: "string \<Rightarrow> bool"
  Address_parseFriendly :: "string \<Rightarrow> thrown + bool \<times> 'a"
  Address_parse :: "string \<Rightarrow> thrown + 'a"
  Cell_fromBase64 :: "string \<Rightarrow> thrown + 'c"
  loadStateInit :: "'c \<Rightarrow> thrown + 's"
  isValidLedgerComment :: "string \<Rightarrow> bool"
  DEFAULT_IS_BOUNCEABLE :: bool
  TRANSFER_TIMEOUT_SEC :: int
  TONCOIN_SLUG :: string
  WORKCHAIN :: int
  dateNow :: "nat \<Rightarrow> int"
  waitLastTransfer :: "string \<Rightarrow> thrown + unit"
  fetchAccount :: "string \<Rightarrow> thrown + int"
  fetchAddress :: "string \<Rightarrow> thrown + string"
  getWalletSeqno :: "string \<Rightarrow> thrown + int"
  signTransaction :: "nat \<Rightarrow> int list \<Rightarrow> ('a, 'c, 's) sign_request \<Rightarrow> thrown + string"

subsection \<open>Numbers\<close>

text \<open>
  A number of JavaScript is a double. The sequence numbers of the model are integers, and
  an integer of at most 53 significant bits is a double. An addition whose exact result
  is the integer \<open>n\<close> returns \<open>jsNumber n\<close>: the nearest integer of 53 significant bits,
  the one with the even significand on a tie. \<open>bitsOver53 a\<close> is the number of bits that
  \<open>a\<close> has beyond 53. The exponent of a double is taken to be unbounded: the model has no
  infinity, which the sum of two integers reaches only from \<open>2^1023\<close> on.
\<close>

function bitsOver53 :: "nat \<Rightarrow> nat" where
  "bitsOver53 a = (if a < 2 ^ 53 then 0 else Suc (bitsOver53 (a div 2)))"
  by pat_completeness auto
termination
  by (relation "measure (\<lambda>a. a)") auto

declare bitsOver53.simps [simp del]

definition jsNumber :: "int \<Rightarrow> int" where
  "jsNumber n =
     (let a = nat \<bar>n\<bar>; k = bitsOver53 a
      in if k = 0 then n
         else (let q = a div 2 ^ k;
                   r = a mod 2 ^ k;
                   h = 2 ^ (k - 1);
                   q' = (if h < r \<or> (r = h \<and> odd q) then q + 1 else q)
               in sgn n * int (q' * 2 ^ k)))"

text \<open>\<open>a + b\<close> on two numbers that hold integers.\<close>

definition jsAdd :: "int \<Rightarrow> int \<Rightarrow> int" where
  "jsAdd a b = jsNumber (a + b)"

subsection \<open>Paths and expiration\<close>

definition getLedgerAccountPathByIndex :: "int \<Rightarrow> bool \<Rightarrow> int \<Rightarrow> int list" where
  "getLedgerAccountPathByIndex index isTestnet workchain =
     (let network = (if isTestnet then 1 else 0);
          chain = (if workchain = - 1 then 255 else 0)
      in [44, 607, network, chain, index, 0])"

definition getLedgerAccountPath :: "('a, 'c, 's) env \<Rightarrow> string \<Rightarrow> thrown + int list" where
  "getLedgerAccountPath e accountId =
     (case fetchAccount e accountId of
        Inl err \<Rightarrow> Inl err
      | Inr index \<Rightarrow> Inr (getLedgerAccountPathByIndex index False (WORKCHAIN e)))"

text \<open>\<open>Math.floor(Date.now() / 1000 + TRANSFER_TIMEOUT_SEC)\<close>, on integers.\<close>

definition getTransferExpirationTime :: "('a, 'c, 's) env \<Rightarrow> nat \<Rightarrow> int" where
  "getTransferExpirationTime e k = dateNow e k div 1000 + TRANSFER_TIMEOUT_SEC e"

subsection \<open>The batch signer: preparing the requests\<close>

text \<open>\<open>x ? Cell.fromBase64(x) : null\<close>.\<close>

definition cellOrNull :: "('a, 'c, 's) env \<Rightarrow> string option \<Rightarrow> thrown + 'c option" where
  "cellOrNull e x =
     (if truthy x then
        (case Cell_fromBase64 e (the x) of Inl err \<Rightarrow> Inl err | Inr c \<Rightarrow> Inr (Some c))
      else Inr None)"

text \<open>
  Lines 352-354: the bounce flag the address declares when it is in friendly form, the
  configured default otherwise.
\<close>

definition declaredBounce :: "('a, 'c, 's) env \<Rightarrow> string \<Rightarrow> thrown + bool" where
  "declaredBounce e addr =
     (if Address_isFriendly e addr then
        (case Address_parseFriendly e addr of Inl err \<Rightarrow> Inl err | Inr r \<Rightarrow> Inr (fst r))
      else Inr (DEFAULT_IS_BOUNCEABLE e))"

text \<open>
  Lines 357-425: the switch on \<open>payload?.type\<close>. It is given the current value of
  \<open>isBounceable\<close> and returns the new value together with \<open>ledgerPayload\<close>. The
  numeric fields are bigints already, on which \<open>BigInt\<close> is the identity.
\<close>

fun ledgerPayloadOf ::
  "('a, 'c, 's) env \<Rightarrow> bool \<Rightarrow> api_payload option \<Rightarrow> thrown + bool \<times> ('a, 'c) ton_payload option"
where
  "ledgerPayloadOf e isBounceable (Some (CommentPayload text)) =
     (if isValidLedgerComment e text then Inr (isBounceable, Some (LedgerComment text))
      else Inl (Error ''Unsupported format''))"
| "ledgerPayloadOf e isBounceable None = Inr (isBounceable, None)"
| "ledgerPayloadOf e isBounceable
       (Some (NftTransferPayload queryId newOwner responseDestination customPayload
                forwardAmount forwardPayload)) =
     (case Address_parse e newOwner of Inl err \<Rightarrow> Inl err | Inr owner \<Rightarrow>
     (case Address_parse e responseDestination of Inl err \<Rightarrow> Inl err | Inr resp \<Rightarrow>
     (case cellOrNull e customPayload of Inl err \<Rightarrow> Inl err | Inr custom \<Rightarrow>
     (case cellOrNull e forwardPayload of Inl err \<Rightarrow> Inl err | Inr fwd \<Rightarrow>
        Inr (True, Some (LedgerNftTransfer queryId owner resp custom forwardAmount fwd))))))"
| "ledgerPayloadOf e isBounceable
       (Some (TokensTransferPayload queryId jettonAmount destination responseDestination
                customPayload forwardAmount forwardPayload)) =
     (case Address_parse e destination of Inl err \<Rightarrow> Inl err | Inr dest \<Rightarrow>
     (case Address_parse e responseDestination of Inl err \<Rightarrow> Inl err | Inr resp \<Rightarrow>
     (case cellOrNull e customPayload of Inl err \<Rightarrow> Inl err | Inr custom \<Rightarrow>
     (case cellOrNull e forwardPayload of Inl err \<Rightarrow> Inl err | Inr fwd \<Rightarrow>
        Inr (True, Some (LedgerJettonTransfer queryId jettonAmount dest resp custom
                           forwardAmount fwd))))))"
| "ledgerPayloadOf e isBounceable (Some (UnknownPayload b)) = Inl (Error ''Unsupported format'')"
| "ledgerPayloadOf e isBounceable (Some (OtherPayload tag)) = Inl (Error ''Unsupported format'')"

text \<open>Lines 427-429.\<close>

definition stateInitOf :: "('a, 'c, 's) env \<Rightarrow> string option \<Rightarrow> thrown + 's option" where
  "stateInitOf e stateInitBase64 =
     (if truthy stateInitBase64 then
        (case Cell_fromBase64 e (the stateInitBase64) of
           Inl err \<Rightarrow> Inl err
         | Inr c \<Rightarrow> (case loadStateInit e c of Inl err \<Rightarrow> Inl err | Inr s \<Rightarrow> Inr (Some s)))
      else Inr None)"

text \<open>The callback of \<open>messages.map\<close> (lines 347-441), for the message at \<open>index\<close>.\<close>

definition prepareOption ::
  "('a, 'c, 's) env \<Rightarrow> int \<Rightarrow> nat \<Rightarrow> api_dapp_transfer \<Rightarrow> thrown + ('a, 'c, 's) sign_request"
where
  "prepareOption e seqno0 index message =
     (case declaredBounce e (toAddress message) of Inl err \<Rightarrow> Inl err | Inr isBounceable0 \<Rightarrow>
     (case ledgerPayloadOf e isBounceable0 (payload message) of Inl err \<Rightarrow> Inl err | Inr bp \<Rightarrow>
     (case stateInitOf e (stateInit message) of Inl err \<Rightarrow> Inl err | Inr si \<Rightarrow>
     (case Address_parse e (toAddress message) of Inl err \<Rightarrow> Inl err | Inr dest \<Rightarrow>
        Inr \<lparr> to = dest,
              sendMode = PAY_GAS_SEPARATELY + IGNORE_ERRORS,
              seqno = jsAdd seqno0 (int index),
              timeout = getTransferExpirationTime e index,
              bounce = fst bp,
              req_amount = amount message,
              req_payload = snd bp,
              req_stateInit = si \<rparr>))))"

text \<open>\<open>messages.map\<close>: the callback on each message in order; the first throw ends the map.\<close>

fun prepareOptions ::
  "('a, 'c, 's) env \<Rightarrow> int \<Rightarrow> nat \<Rightarrow> api_dapp_transfer list
     \<Rightarrow> thrown + ('a, 'c, 's) sign_request list"
where
  "prepareOptions e seqno0 index [] = Inr []"
| "prepareOptions e seqno0 index (message # rest) =
     (case prepareOption e seqno0 index message of
        Inl err \<Rightarrow> Inl err
      | Inr options \<Rightarrow>
          (case prepareOptions e seqno0 (Suc index) rest of
             Inl err \<Rightarrow> Inl err
           | Inr others \<Rightarrow> Inr (options # others)))"

subsection \<open>The batch signer: the signing loop\<close>

text \<open>The element pushed on \<open>signedMessages\<close> (lines 455-466).\<close>

definition signedTransfer ::
  "('a, 'c, 's) env \<Rightarrow> string \<Rightarrow> string \<Rightarrow> ('a, 'c, 's) sign_request \<Rightarrow> api_dapp_transfer
     \<Rightarrow> api_signed_transfer"
where
  "signedTransfer e fromAddr b64 options message =
     \<lparr> base64 = b64,
       st_seqno = seqno options,
       params = \<lparr> tx_amount = amount message,
                  fromAddress = fromAddr,
                  tx_toAddress = toAddress message,
                  comment = (case payload message of
                               Some (CommentPayload text) \<Rightarrow> Some text
                             | _ \<Rightarrow> None),
                  fee = Some 0,
                  slug = TONCOIN_SLUG e,
                  tx_type = None \<rparr> \<rparr>"

text \<open>Line 469: the thrown value carries the device's status code for a declined request.\<close>

definition userDeclined :: "thrown \<Rightarrow> bool" where
  "userDeclined err = (statusCode err = Some CONDITIONS_OF_USE_NOT_SATISFIED)"

text \<open>
  Lines 449-475. Besides the outcome (\<open>Inl\<close> the exception that leaves the function,
  \<open>Inr\<close> the list returned) the loop returns \<open>calls\<close>, the requests it has sent to the
  device, in order. \<open>logDebugError\<close> only writes to the console and is left out.
\<close>

function signLoop ::
  "('a, 'c, 's) env \<Rightarrow> int list \<Rightarrow> string \<Rightarrow> ('a, 'c, 's) sign_request list
     \<Rightarrow> api_dapp_transfer list \<Rightarrow> nat \<Rightarrow> nat \<Rightarrow> nat \<Rightarrow> api_signed_transfer list
     \<Rightarrow> ('a, 'c, 's) sign_request list
     \<Rightarrow> (thrown + api_signed_transfer list) \<times> ('a, 'c, 's) sign_request list"
where
  "signLoop e path fromAddr preparedOptions messages attempts index attempt signedMessages calls =
     (if index < length preparedOptions \<and> attempt < attempts then
        (let options = preparedOptions ! index;
             message = messages ! index
         in case signTransaction e attempt path options of
              Inr b64 \<Rightarrow>
                signLoop e path fromAddr preparedOptions messages attempts (index + 1) (attempt + 1)
                  (signedMessages @ [signedTransfer e fromAddr b64 options message])
                  (calls @ [options])
            | Inl err \<Rightarrow>
                if userDeclined err
                then (Inl ApiUserRejectsError, calls @ [options])
                else signLoop e path fromAddr preparedOptions messages attempts index (attempt + 1)
                       signedMessages (calls @ [options]))
      else (Inr signedMessages, calls))"
  by pat_completeness auto
termination
  by (relation "measure (\<lambda>(e, path, fromAddr, preparedOptions, messages, attempts, index, attempt,
                            signedMessages, calls). attempts - attempt)") auto

text \<open>Lines 343-345: the sequence number the batch starts from.\<close>

definition startSeqno :: "('a, 'c, 's) env \<Rightarrow> string \<Rightarrow> int option \<Rightarrow> thrown + int" where
  "startSeqno e accountId seqnoArg =
     (if seqnoMissing seqnoArg then getWalletSeqno e accountId else Inr (the seqnoArg))"

text \<open>
  \<open>signLedgerTransactions\<close>. \<open>Promise.all\<close> of the path and the address is taken in the
  order of the array.
\<close>

definition signLedgerTransactions ::
  "('a, 'c, 's) env \<Rightarrow> string \<Rightarrow> api_dapp_transfer list \<Rightarrow> int option
     \<Rightarrow> (thrown + api_signed_transfer list) \<times> ('a, 'c, 's) sign_request list"
where
  "signLedgerTransactions e accountId messages seqnoArg =
     (case waitLastTransfer e accountId of Inl err \<Rightarrow> (Inl err, []) | Inr u \<Rightarrow>
     (case getLedgerAccountPath e accountId of Inl err \<Rightarrow> (Inl err, []) | Inr path \<Rightarrow>
     (case fetchAddress e accountId of Inl err \<Rightarrow> (Inl err, []) | Inr fromAddr \<Rightarrow>
     (case startSeqno e accountId seqnoArg of Inl err \<Rightarrow> (Inl err, []) | Inr seqno0 \<Rightarrow>
     (case prepareOptions e seqno0 0 messages of Inl err \<Rightarrow> (Inl err, []) | Inr preparedOptions \<Rightarrow>
        signLoop e path fromAddr preparedOptions messages (ATTEMPTS + length preparedOptions)
          0 0 [] [])))))"


subsection \<open>Account discovery\<close>

record ledger_wallet_info =
  w_index :: int
  address :: string
  publicKey :: string
  balance :: int
  version :: string
  driver :: string
  deviceId :: "string option"
  deviceName :: "string option"

text \<open>
  \<open>getAddress path chain bounceable\<close> is \<open>tonTransport.getAddress\<close>, returning the address
  and the public key in hexadecimal; \<open>deviceModel\<close> is \<open>transport.deviceModel\<close>, as the
  pair of its \<open>id\<close> and \<open>productName\<close>. Discovery asks for each index at most once, so
  the answers are functions of their arguments.
\<close>

record wallet_env =
  getAddress :: "int list \<Rightarrow> int \<Rightarrow> bool \<Rightarrow> thrown + string \<times> string"
  getWalletBalance :: "string \<Rightarrow> string \<Rightarrow> thrown + int"
  deviceModel :: "(string \<times> string) option"
  WALLET_IS_BOUNCEABLE :: bool
  wallet_WORKCHAIN :: int

definition getLedgerWalletAddress :: "wallet_env \<Rightarrow> int \<Rightarrow> bool \<Rightarrow> thrown + string \<times> string" where
  "getLedgerWalletAddress w index isTestnet =
     getAddress w (getLedgerAccountPathByIndex index isTestnet (wallet_WORKCHAIN w)) CHAIN
       (WALLET_IS_BOUNCEABLE w)"

definition getLedgerWalletInfo :: "wallet_env \<Rightarrow> string \<Rightarrow> int \<Rightarrow> thrown + ledger_wallet_info" where
  "getLedgerWalletInfo w network accountIndex =
     (case getLedgerWalletAddress w accountIndex False of
        Inl err \<Rightarrow> Inl err
      | Inr ap \<Rightarrow>
          (case getWalletBalance w network (fst ap) of
             Inl err \<Rightarrow> Inl err
           | Inr bal \<Rightarrow>
               Inr \<lparr> w_index = accountIndex,
                     address = fst ap,
                     publicKey = snd ap,
                     balance = bal,
                     version = VERSION,
                     driver = ''HID'',
                     deviceId = map_option fst (deviceModel w),
                     deviceName = map_option snd (deviceModel w) \<rparr>))"

text \<open>
  The \<open>while (true)\<close> of \<open>getNextLedgerWallets\<close> (lines 503-522), from the current
  \<open>index\<close> and \<open>result\<close>. The loop need not end, so its value is an option: \<open>None\<close> when
  it runs forever. \<open>Inl err\<close> is the exception that reaches the \<open>catch\<close>.
\<close>

partial_function (option) scanLedgerWallets ::
  "wallet_env \<Rightarrow> string \<Rightarrow> string list \<Rightarrow> int \<Rightarrow> ledger_wallet_info list
     \<Rightarrow> (thrown + ledger_wallet_info list) option"
where
  "scanLedgerWallets w network alreadyImportedAddresses index result =
     (case getLedgerWalletInfo w network index of
        Inl err \<Rightarrow> Some (Inl err)
      | Inr walletInfo \<Rightarrow>
          if address walletInfo \<in> set alreadyImportedAddresses
          then scanLedgerWallets w network alreadyImportedAddresses (index + 1) result
          else if balance walletInfo \<noteq> 0
          then scanLedgerWallets w network alreadyImportedAddresses (index + 1)
                 (result @ [walletInfo])
          else Some (Inr (if result = [] then result @ [walletInfo] else result)))"

text \<open>
  \<open>getNextLedgerWallets\<close>; the defaults of the source are \<open>lastExistingIndex = -1\<close> and
  \<open>alreadyImportedAddresses = []\<close>. \<open>Inl err\<close> stands for \<open>handleServerError(err)\<close>, whose
  declaration in api/errors is not part of this module.
\<close>

definition getNextLedgerWallets ::
  "wallet_env \<Rightarrow> string \<Rightarrow> int \<Rightarrow> string list \<Rightarrow> (thrown + ledger_wallet_info list) option"
where
  "getNextLedgerWallets w network lastExistingIndex alreadyImportedAddresses =
     scanLedgerWallets w network alreadyImportedAddresses (lastExistingIndex + 1) []"

text \<open>
  Sample wallets: the address of index \<open>i\<close> is \<open>names ! i\<close>, the device fails beyond the
  list, and the balances are given by an association list.
\<close>

definition sampleWallets :: "string list \<Rightarrow> (string \<times> int) list \<Rightarrow> wallet_env" where
  "sampleWallets names balances =
     \<lparr> getAddress = (\<lambda>path chain bounceable.
         if 0 \<le> path ! 4 \<and> nat (path ! 4) < length names
         then Inr (names ! nat (path ! 4), ''ab01'')
         else Inl (External (Some 0x6e00) ''Ledger device: unknown'')),
       getWalletBalance = (\<lambda>network a.
         case map_of balances a of
           Some b \<Rightarrow> Inr b
         | None \<Rightarrow> Inl (External None ''Not found'')),
       deviceModel = Some (''nanoS'', ''Ledger Nano S''),
       WALLET_IS_BOUNCEABLE = False,
       wallet_WORKCHAIN = 0 \<rparr>"

definition sampleWallet :: "int \<Rightarrow> string \<Rightarrow> int \<Rightarrow> ledger_wallet_info" where
  "sampleWallet i a b =
     \<lparr> w_index = i, address = a, publicKey = ''ab01'', balance = b, version = ''v4R2'',
       driver = ''HID'', deviceId = Some ''nanoS'', deviceName = Some ''Ledger Nano S'' \<rparr>"

subsection \<open>Connecting\<close>

text \<open>
  What a run does to the outside, in order: the calls it makes to the transport classes,
  its pauses, and what it hands to \<open>logDebugError\<close>.
\<close>

datatype effect = Called string | Paused nat | Logged string "thrown option"

text \<open>
  The transport classes over devices \<open>'d\<close> and transports \<open>'t\<close>. \<open>hidList i\<close> and
  \<open>hidCreate i\<close> are the outcomes of \<open>TransportWebHID.list()\<close> and \<open>.create()\<close> in the
  iteration \<open>i\<close> of the loop, which calls each at most once; likewise for USB.
  \<open>usbOpenConnected\<close> returns \<open>None\<close> for \<open>null\<close>.
\<close>

record ('d, 't) transport_env =
  hidIsSupported :: "thrown + bool"
  usbIsSupported :: "thrown + bool"
  opened :: "'d \<Rightarrow> bool"
  hidList :: "nat \<Rightarrow> thrown + 'd list"
  hidCreate :: "nat \<Rightarrow> thrown + unit"
  hidNew :: "'d \<Rightarrow> 't"
  hidOpen :: "'d \<Rightarrow> thrown + 't"
  usbList :: "nat \<Rightarrow> thrown + 'd list"
  usbCreate :: "nat \<Rightarrow> thrown + unit"
  usbOpenConnected :: "thrown + 't option"
  usbRequest :: "thrown + 't"
  usbOpen :: "'d \<Rightarrow> thrown + 't"

text \<open>The module's two variables; \<open>tonTransport\<close> holds the transport it was built on.\<close>

record 't session =
  transport :: "'t option"
  tonTransport :: "'t option"

text \<open>The \<open>for\<close> loop of \<open>connectHID\<close> (lines 125-139) from iteration \<open>i\<close>, and the throw after it.\<close>

function connectHID_loop ::
  "('d, 't) transport_env \<Rightarrow> nat \<Rightarrow> effect list \<Rightarrow> (thrown + 't) \<times> effect list"
where
  "connectHID_loop t i fx =
     (if i < ATTEMPTS then
        (case hidList t i of
           Inl err \<Rightarrow> (Inl err, fx @ [Called ''TransportWebHID.list''])
         | Inr devices \<Rightarrow>
             (case devices of
                [] \<Rightarrow>
                  (case hidCreate t i of
                     Inl err \<Rightarrow>
                       (Inl err, fx @ [Called ''TransportWebHID.list'',
                                       Called ''TransportWebHID.create''])
                   | Inr u \<Rightarrow>
                       connectHID_loop t (i + 1)
                         (fx @ [Called ''TransportWebHID.list'',
                                Called ''TransportWebHID.create'', Paused PAUSE]))
              | device # others \<Rightarrow>
                  if opened t device
                  then (Inr (hidNew t device), fx @ [Called ''TransportWebHID.list''])
                  else (hidOpen t device,
                        fx @ [Called ''TransportWebHID.list'', Called ''TransportWebHID.open''])))
      else (Inl (Error ''Failed to connect''), fx))"
  by pat_completeness auto
termination
  by (relation "measure (\<lambda>(t, i, fx). ATTEMPTS - i)") auto

definition connectHID :: "('d, 't) transport_env \<Rightarrow> (thrown + 't) \<times> effect list" where
  "connectHID t = connectHID_loop t 0 []"

text \<open>The \<open>for\<close> loop of \<open>connectUSB\<close> (lines 145-159) from iteration \<open>i\<close>, and the throw after it.\<close>

function connectUSB_loop ::
  "('d, 't) transport_env \<Rightarrow> nat \<Rightarrow> effect list \<Rightarrow> (thrown + 't) \<times> effect list"
where
  "connectUSB_loop t i fx =
     (if i < ATTEMPTS then
        (case usbList t i of
           Inl err \<Rightarrow> (Inl err, fx @ [Called ''TransportWebUSB.list''])
         | Inr devices \<Rightarrow>
             (case devices of
                [] \<Rightarrow>
                  (case usbCreate t i of
                     Inl err \<Rightarrow>
                       (Inl err, fx @ [Called ''TransportWebUSB.list'',
                                       Called ''TransportWebUSB.create''])
                   | Inr u \<Rightarrow>
                       connectUSB_loop t (i + 1)
                         (fx @ [Called ''TransportWebUSB.list'',
                                Called ''TransportWebUSB.create'', Paused PAUSE]))
              | device # others \<Rightarrow>
                  if opened t device
                  then
                    (case usbOpenConnected t of
                       Inl err \<Rightarrow>
                         (Inl err, fx @ [Called ''TransportWebUSB.list'',
                                         Called ''TransportWebUSB.openConnected''])
                     | Inr (Some tr) \<Rightarrow>
                         (Inr tr, fx @ [Called ''TransportWebUSB.list'',
                                        Called ''TransportWebUSB.openConnected''])
                     | Inr None \<Rightarrow>
                         (usbRequest t,
                          fx @ [Called ''TransportWebUSB.list'',
                                Called ''TransportWebUSB.openConnected'',
                                Called ''TransportWebUSB.request'']))
                  else (usbOpen t device,
                        fx @ [Called ''TransportWebUSB.list'', Called ''TransportWebUSB.open''])))
      else (Inl (Error ''Failed to connect''), fx))"
  by pat_completeness auto
termination
  by (relation "measure (\<lambda>(t, i, fx). ATTEMPTS - i)") auto

definition connectUSB :: "('d, 't) transport_env \<Rightarrow> (thrown + 't) \<times> effect list" where
  "connectUSB t = connectUSB_loop t 0 []"

text \<open>
  The tail of \<open>connectLedger\<close> once a \<open>connect\<close> function has run: on success the two
  variables are assigned and the result is \<open>true\<close>; a throw reaches the \<open>catch\<close>, which
  logs it and returns \<open>false\<close>.
\<close>

definition connected ::
  "'t session \<Rightarrow> effect list \<Rightarrow> (thrown + 't) \<times> effect list \<Rightarrow> bool \<times> 't session \<times> effect list"
where
  "connected s probes r =
     (case fst r of
        Inl err \<Rightarrow> (False, s, probes @ snd r @ [Logged ''connectLedger'' (Some err)])
      | Inr tr \<Rightarrow> (True, \<lparr> transport = Some tr, tonTransport = Some tr \<rparr>, probes @ snd r))"

definition connectLedger ::
  "('d, 't) transport_env \<Rightarrow> 't session \<Rightarrow> bool \<times> 't session \<times> effect list"
where
  "connectLedger t s =
     (case hidIsSupported t of
        Inl err \<Rightarrow>
          (False, s, [Called ''TransportWebHID.isSupported'', Logged ''connectLedger'' (Some err)])
      | Inr hid \<Rightarrow>
          if hid then connected s [Called ''TransportWebHID.isSupported''] (connectHID t)
          else
            (case usbIsSupported t of
               Inl err \<Rightarrow>
                 (False, s, [Called ''TransportWebHID.isSupported'',
                             Called ''TransportWebUSB.isSupported'',
                             Logged ''connectLedger'' (Some err)])
             | Inr usb \<Rightarrow>
                 if usb
                 then connected s [Called ''TransportWebHID.isSupported'',
                                   Called ''TransportWebUSB.isSupported''] (connectUSB t)
                 else (False, s,
                       [Called ''TransportWebHID.isSupported'',
                        Called ''TransportWebUSB.isSupported'',
                        Logged ''connectLedger: HID and/or USB are not supported'' None])))"

text \<open>The number of \<open>list\<close> calls in a run.\<close>

definition listCalls :: "effect list \<Rightarrow> nat" where
  "listCalls fx = count_list fx (Called ''TransportWebHID.list'')
                + count_list fx (Called ''TransportWebUSB.list'')"

text \<open>A sample browser: the given kinds are supported and no device ever shows up.\<close>

definition noDevice :: "bool \<Rightarrow> bool \<Rightarrow> (unit, string) transport_env" where
  "noDevice hid usb =
     \<lparr> hidIsSupported = Inr hid,
       usbIsSupported = Inr usb,
       opened = (\<lambda>d. False),
       hidList = (\<lambda>i. Inr []),
       hidCreate = (\<lambda>i. Inr ()),
       hidNew = (\<lambda>d. ''hid''),
       hidOpen = (\<lambda>d. Inr ''hid''),
       usbList = (\<lambda>i. Inr []),
       usbCreate = (\<lambda>i. Inr ()),
       usbOpenConnected = Inr None,
       usbRequest = Inr ''usb'',
       usbOpen = (\<lambda>d. Inr ''usb'') \<rparr>"

subsection \<open>The single-transfer submitter\<close>

record api_submit_transfer_options =
  o_accountId :: string
  o_password :: string
  o_toAddress :: string
  o_amount :: int
  tokenAddress :: "string option"
  o_comment :: "string option"
  o_fee :: "int option"

text \<open>
  The collaborators that only the submitter has. \<open>parseAccountId\<close> gives the network of
  an account id; \<open>getWalletInfo\<close> gives \<open>seqno\<close> and \<open>balance\<close>; \<open>Address_toString a b\<close> is
  \<open>a.toString({ urlSafe: true, bounceable: b })\<close>; \<open>buildCommentPayload\<close> (lines 326-331)
  is the cell that the \<open>Builder\<close> of @ton/core makes of 32 zero bits and the comment;
  \<open>sendSignedTransferMessage\<close> returns \<open>None\<close> for \<open>undefined\<close>.
\<close>

record ('a, 'c, 'r) submit_env =
  parseAccountId :: "string \<Rightarrow> string"
  getWalletInfo :: "string \<Rightarrow> string \<Rightarrow> thrown + int \<times> int"
  resolveTokenWalletAddress :: "string \<Rightarrow> string \<Rightarrow> string \<Rightarrow> thrown + string"
  resolveTokenMinterAddress :: "string \<Rightarrow> string \<Rightarrow> thrown + string"
  sendSignedTransferMessage :: "string \<Rightarrow> api_signed_transfer \<Rightarrow> thrown + 'r option"
  buildCommentPayload :: "string \<Rightarrow> 'c"
  Address_toString :: "'a \<Rightarrow> bool \<Rightarrow> string"
  TOKEN_TRANSFER_TONCOIN_AMOUNT :: int
  TOKEN_TRANSFER_TONCOIN_FORWARD_AMOUNT :: int

text \<open>What \<open>buildLedgerTokenTransfer\<close> returns.\<close>

record ('a, 'c) token_transfer =
  tt_amount :: int
  tt_toAddress :: string
  tt_payload :: "('a, 'c) ton_payload"

definition buildLedgerTokenTransfer ::
  "('a, 'c, 's) env \<Rightarrow> ('a, 'c, 'r) submit_env \<Rightarrow> string \<Rightarrow> string \<Rightarrow> string \<Rightarrow> string \<Rightarrow> int
     \<Rightarrow> string option \<Rightarrow> thrown + ('a, 'c) token_transfer"
where
  "buildLedgerTokenTransfer e se network tokenAddr fromAddr toAddr amt cmt =
     (case resolveTokenWalletAddress se network fromAddr tokenAddr of
        Inl err \<Rightarrow> Inl err
      | Inr tokenWalletAddress \<Rightarrow>
     (case resolveTokenMinterAddress se network tokenWalletAddress of
        Inl err \<Rightarrow> Inl err
      | Inr realTokenAddress \<Rightarrow>
          if tokenAddr \<noteq> realTokenAddress then Inl (Error ''Invalid contract'')
          else
            (let forwardPayload =
                   (if truthy cmt then Some (buildCommentPayload se (the cmt)) else None)
             in (case Address_parse e toAddr of
                  Inl err \<Rightarrow> Inl err
                | Inr destination \<Rightarrow>
               (case Address_parse e fromAddr of
                  Inl err \<Rightarrow> Inl err
                | Inr responseDestination \<Rightarrow>
                    Inr \<lparr> tt_amount = TOKEN_TRANSFER_TONCOIN_AMOUNT se,
                          tt_toAddress = tokenWalletAddress,
                          tt_payload =
                            LedgerJettonTransfer 0 amt destination responseDestination None
                              (TOKEN_TRANSFER_TONCOIN_FORWARD_AMOUNT se) forwardPayload \<rparr>)))))"

text \<open>The values of the local variables of \<open>submitLedgerTransfer\<close> when it reaches its \<open>try\<close>.\<close>

record ('a, 'c) prepared_transfer =
  p_path :: "int list"
  p_seqno :: int
  p_fromAddress :: string
  p_normalizedAddress :: string
  p_toAddress :: string
  p_amount :: int
  p_payload :: "('a, 'c) ton_payload option"
  p_isBounceable :: bool
  p_sendMode :: nat

text \<open>
  Lines 239-250: from the options and the bounce flag of the parsed address, the
  destination, the amount, the payload and the bounce flag of the request.
\<close>

definition submitPayload ::
  "('a, 'c, 's) env \<Rightarrow> ('a, 'c, 'r) submit_env \<Rightarrow> api_submit_transfer_options \<Rightarrow> string \<Rightarrow> string
     \<Rightarrow> bool \<Rightarrow> thrown + string \<times> int \<times> ('a, 'c) ton_payload option \<times> bool"
where
  "submitPayload e se options network fromAddr isBounceable =
     (if truthy (tokenAddress options) then
        (case buildLedgerTokenTransfer e se network (the (tokenAddress options)) fromAddr
                (o_toAddress options) (o_amount options) (o_comment options) of
           Inl err \<Rightarrow> Inl err
         | Inr tt \<Rightarrow> Inr (tt_toAddress tt, tt_amount tt, Some (tt_payload tt), True))
      else if truthy (o_comment options) then
        (if isValidLedgerComment e (the (o_comment options))
         then Inr (o_toAddress options, o_amount options,
                   Some (LedgerComment (the (o_comment options))), isBounceable)
         else Inl (Error ''Unsupported format''))
      else Inr (o_toAddress options, o_amount options, None, isBounceable))"

text \<open>
  Lines 217-256, everything before the \<open>try\<close>. \<open>Promise.all\<close> of the path and the wallet
  info is taken in the order of the array.
\<close>

definition submitPrepare ::
  "('a, 'c, 's) env \<Rightarrow> ('a, 'c, 'r) submit_env \<Rightarrow> api_submit_transfer_options
     \<Rightarrow> thrown + ('a, 'c) prepared_transfer"
where
  "submitPrepare e se options =
     (let network = parseAccountId se (o_accountId options) in
     (case waitLastTransfer e (o_accountId options) of Inl err \<Rightarrow> Inl err | Inr u \<Rightarrow>
     (case fetchAddress e (o_accountId options) of Inl err \<Rightarrow> Inl err | Inr fromAddr \<Rightarrow>
     (case getLedgerAccountPath e (o_accountId options) of Inl err \<Rightarrow> Inl err | Inr path \<Rightarrow>
     (case getWalletInfo se network fromAddr of Inl err \<Rightarrow> Inl err | Inr walletInfo \<Rightarrow>
     (case Address_parseFriendly e (o_toAddress options) of
        Inl err \<Rightarrow> Inl err
      | Inr parsedAddress \<Rightarrow>
     (case submitPayload e se options network fromAddr (fst parsedAddress) of
        Inl err \<Rightarrow> Inl err
      | Inr tp \<Rightarrow>
          (let isFullTonBalance =
                 (\<not> truthy (tokenAddress options) \<and> snd walletInfo = fst (snd tp))
           in Inr \<lparr> p_path = path,
                    p_seqno = fst walletInfo,
                    p_fromAddress = fromAddr,
                    p_normalizedAddress =
                      Address_toString se (snd parsedAddress) (DEFAULT_IS_BOUNCEABLE e),
                    p_toAddress = fst tp,
                    p_amount = fst (snd tp),
                    p_payload = fst (snd (snd tp)),
                    p_isBounceable = snd (snd (snd tp)),
                    p_sendMode =
                      (if isFullTonBalance then CARRY_ALL_REMAINING_BALANCE
                       else PAY_GAS_SEPARATELY + IGNORE_ERRORS) \<rparr>))))))))"

text \<open>
  \<open>submitLedgerTransfer\<close>. The outcome is \<open>Inl\<close> for an exception that leaves the
  function, \<open>Inr None\<close> for \<open>undefined\<close> and \<open>Inr (Some r)\<close> for a result; with it come
  the requests sent to the device and what was handed to \<open>logDebugError\<close>. The spread
  \<open>...localTransactionParams\<close> is a function that overrides fields of the parameters.
\<close>

text \<open>The object handed to \<open>signTransaction\<close> (lines 259-267), given the parsed destination.\<close>

definition submitRequest ::
  "('a, 'c, 's) env \<Rightarrow> ('a, 'c) prepared_transfer \<Rightarrow> 'a \<Rightarrow> ('a, 'c, 's) sign_request"
where
  "submitRequest e p dest =
     \<lparr> to = dest,
       sendMode = p_sendMode p,
       seqno = p_seqno p,
       timeout = getTransferExpirationTime e 0,
       bounce = p_isBounceable p,
       req_amount = p_amount p,
       req_payload = p_payload p,
       req_stateInit = None \<rparr>"

text \<open>The message handed to the backend (lines 269-281).\<close>

definition submitMessage ::
  "api_submit_transfer_options \<Rightarrow> ('a, 'c) prepared_transfer \<Rightarrow> string
     \<Rightarrow> (tx_params \<Rightarrow> tx_params) \<Rightarrow> string \<Rightarrow> api_signed_transfer"
where
  "submitMessage options p slug0 localTransactionParams b64 =
     \<lparr> base64 = b64,
       st_seqno = p_seqno p,
       params = localTransactionParams
         \<lparr> tx_amount = o_amount options,
           fromAddress = p_fromAddress p,
           tx_toAddress = p_normalizedAddress p,
           comment = o_comment options,
           fee = o_fee options,
           slug = slug0,
           tx_type = None \<rparr> \<rparr>"

definition submitLedgerTransfer ::
  "('a, 'c, 's) env \<Rightarrow> ('a, 'c, 'r) submit_env \<Rightarrow> api_submit_transfer_options \<Rightarrow> string
     \<Rightarrow> (tx_params \<Rightarrow> tx_params)
     \<Rightarrow> (thrown + 'r option) \<times> ('a, 'c, 's) sign_request list \<times> effect list"
where
  "submitLedgerTransfer e se options slug0 localTransactionParams =
     (case submitPrepare e se options of
        Inl err \<Rightarrow> (Inl err, [], [])
      | Inr p \<Rightarrow>
     (case Address_parse e (p_toAddress p) of
        Inl err \<Rightarrow> (Inr None, [], [Logged ''submitLedgerTransfer'' (Some err)])
      | Inr dest \<Rightarrow>
          (let request = submitRequest e p dest
           in (case signTransaction e 0 (p_path p) request of
                Inl err \<Rightarrow> (Inr None, [request], [Logged ''submitLedgerTransfer'' (Some err)])
              | Inr b64 \<Rightarrow>
                  (let message = submitMessage options p slug0 localTransactionParams b64
                   in (case sendSignedTransferMessage se (o_accountId options) message of
                        Inl err \<Rightarrow>
                          (Inr None, [request], [Logged ''submitLedgerTransfer'' (Some err)])
                      | Inr r \<Rightarrow> (Inr r, [request], [])))))))"

subsection \<open>A sample environment\<close>

text \<open>
  A concrete environment on which the theorems below are instantiated. Addresses, cells
  and state-inits are strings; a friendly address starts with \<open>EQ\<close> (bounceable) or
  \<open>UQ\<close> (not bounceable), a raw one with \<open>0:\<close>. The device signs every request.
\<close>

definition sampleParseFriendly :: "string \<Rightarrow> thrown + bool \<times> string" where
  "sampleParseFriendly s =
     (if take 2 s = ''EQ'' then Inr (True, drop 2 s)
      else if take 2 s = ''UQ'' then Inr (False, drop 2 s)
      else Inl (External None ''Unknown address type''))"

definition sampleParse :: "string \<Rightarrow> thrown + string" where
  "sampleParse s =
     (if take 2 s = ''EQ'' \<or> take 2 s = ''UQ'' \<or> take 2 s = ''0:'' then Inr (drop 2 s)
      else Inl (External None ''Unknown address type''))"

definition sampleEnv :: "(string, string, string) env" where
  "sampleEnv =
     \<lparr> Address_isFriendly = (\<lambda>s. take 2 s = ''EQ'' \<or> take 2 s = ''UQ''),
       Address_parseFriendly = sampleParseFriendly,
       Address_parse = sampleParse,
       Cell_fromBase64 = Inr,
       loadStateInit = Inr,
       isValidLedgerComment = (\<lambda>s. length s \<le> 120),
       DEFAULT_IS_BOUNCEABLE = True,
       TRANSFER_TIMEOUT_SEC = 60,
       TONCOIN_SLUG = ''toncoin'',
       WORKCHAIN = 0,
       dateNow = (\<lambda>k. 1700000000000),
       waitLastTransfer = (\<lambda>a. Inr ()),
       fetchAccount = (\<lambda>a. Inr 0),
       fetchAddress = (\<lambda>a. Inr ''UQme''),
       getWalletSeqno = (\<lambda>a. Inr 7),
       signTransaction = (\<lambda>n path r. Inr ''te6c'') \<rparr>"

definition sampleMessages :: "api_dapp_transfer list" where
  "sampleMessages =
     [\<lparr> toAddress = ''EQbob'', amount = 10, payload = Some (CommentPayload ''hi''),
        stateInit = None \<rparr>,
      \<lparr> toAddress = ''UQcarol'', amount = 20, payload = None, stateInit = None \<rparr>]"

text \<open>The device answers its second call with the status of a declined request.\<close>

definition decliningEnv :: "(string, string, string) env" where
  "decliningEnv = sampleEnv
     \<lparr> signTransaction := (\<lambda>n path r.
          if n = 1 then Inl (External (Some 0x6985) ''Ledger device: Condition of use not satisfied'')
          else Inr ''te6c'') \<rparr>"

text \<open>The device fails its second call with an error that has no status code.\<close>

definition flakyEnv :: "(string, string, string) env" where
  "flakyEnv = sampleEnv
     \<lparr> signTransaction := (\<lambda>n path r.
          if n = 1 then Inl (External None ''Timeout'') else Inr ''te6c'') \<rparr>"

text \<open>The device fails every call with an error that has no status code.\<close>

definition brokenEnv :: "(string, string, string) env" where
  "brokenEnv = sampleEnv \<lparr> signTransaction := (\<lambda>n path r. Inl (External None ''Timeout'')) \<rparr>"


text \<open>A sample backend for the submitter, and sample options.\<close>

definition sampleSubmitEnv :: "(string, string, string) submit_env" where
  "sampleSubmitEnv =
     \<lparr> parseAccountId = (\<lambda>a. ''mainnet''),
       getWalletInfo = (\<lambda>network a. Inr (7, 1000)),
       resolveTokenWalletAddress = (\<lambda>network owner token. Inr ''EQjettonwallet''),
       resolveTokenMinterAddress = (\<lambda>network wallet. Inr ''EQminter''),
       sendSignedTransferMessage = (\<lambda>a message. Inr (Some ''msghash'')),
       buildCommentPayload = (\<lambda>c. ''comment:'' @ c),
       Address_toString = (\<lambda>a b. (if b then ''EQ'' else ''UQ'') @ a),
       TOKEN_TRANSFER_TONCOIN_AMOUNT = 50,
       TOKEN_TRANSFER_TONCOIN_FORWARD_AMOUNT = 1 \<rparr>"

definition sampleOptions :: "string option \<Rightarrow> string option \<Rightarrow> api_submit_transfer_options" where
  "sampleOptions token cmt =
     \<lparr> o_accountId = ''acc'', o_password = [], o_toAddress = ''UQbob'', o_amount = 10,
       tokenAddress = token, o_comment = cmt, o_fee = Some 1 \<rparr>"

text \<open>
  A fungible-token and a non-fungible transfer, both to addresses whose friendly form
  declares itself not bounceable.
\<close>

definition transferMessages :: "api_dapp_transfer list" where
  "transferMessages =
     [\<lparr> toAddress = ''UQjetton'', amount = 50,
        payload = Some (TokensTransferPayload 0 100 ''UQdave'' ''UQme'' None 1 None),
        stateInit = None \<rparr>,
      \<lparr> toAddress = ''UQitem'', amount = 50,
        payload = Some (NftTransferPayload 0 ''UQdave'' ''UQme'' None 1 None),
        stateInit = None \<rparr>]"

text \<open>A comment of 121 characters, which the sample check refuses.\<close>

definition longComment :: string where
  "longComment = replicate 121 (CHR ''a'')"

text \<open>The backend refuses the signed message.\<close>

definition offlineEnv :: "(string, string, string) submit_env" where
  "offlineEnv =
     sampleSubmitEnv \<lparr> sendSignedTransferMessage := (\<lambda>a message. Inl (External None ''Offline'')) \<rparr>"

text \<open>The payloads of claim C6: a fungible-token or a non-fungible transfer.\<close>

fun isTokenOrNftTransfer :: "api_payload option \<Rightarrow> bool" where
  "isTokenOrNftTransfer (Some (NftTransferPayload q n r c f p)) = True"
| "isTokenOrNftTransfer (Some (TokensTransferPayload q a d r c f p)) = True"
| "isTokenOrNftTransfer other = False"

section \<open>Properties\<close>

subsection \<open>Numbers\<close>

lemma bitsOver53_small: "a < 2 ^ 53 \<Longrightarrow> bitsOver53 a = 0"
  by (subst bitsOver53.simps) simp

lemma jsNumber_exact: "\<bar>n\<bar> \<le> 2 ^ 53 \<Longrightarrow> jsNumber n = n"
proof (cases "\<bar>n\<bar> < 2 ^ 53")
  case True
  then have "nat \<bar>n\<bar> < 2 ^ 53" by (simp add: nat_less_iff)
  then show ?thesis by (simp add: jsNumber_def bitsOver53_small)
next
  case False
  assume "\<bar>n\<bar> \<le> 2 ^ 53"
  with False have "n = 2 ^ 53 \<or> n = - (2 ^ 53)" by arith
  then show ?thesis
  proof
    assume "n = 2 ^ 53"
    then show ?thesis
      by (simp add: jsNumber_def bitsOver53.simps Let_def)
  next
    assume "n = - (2 ^ 53)"
    then show ?thesis
      by (simp add: jsNumber_def bitsOver53.simps Let_def)
  qed
qed

lemma jsAdd_exact: "\<bar>a + b\<bar> \<le> 2 ^ 53 \<Longrightarrow> jsAdd a b = a + b"
  by (simp add: jsAdd_def jsNumber_exact)

lemma jsAdd_big: "jsAdd (2 ^ 53) 1 = 2 ^ 53"
  by (simp add: jsAdd_def jsNumber_def bitsOver53.simps Let_def)

lemma jsAdd_big3: "jsAdd (2 ^ 53) 3 = 2 ^ 53 + 4"
  by (simp add: jsAdd_def jsNumber_def bitsOver53.simps Let_def)

subsection \<open>The batch signer\<close>

declare signLoop.simps [simp del]

lemma prepareOptions_length:
  "prepareOptions e s i ms = Inr opts \<Longrightarrow> length opts = length ms"
  by (induction ms arbitrary: i opts) (auto split: sum.splits)

lemma prepareOption_seqno:
  "prepareOption e s i m = Inr r \<Longrightarrow> seqno r = jsAdd s (int i)"
  by (auto simp: prepareOption_def split: sum.splits)

lemma prepareOptions_seqno:
  "prepareOptions e s i ms = Inr opts \<Longrightarrow> j < length opts \<Longrightarrow> seqno (opts ! j) = jsAdd s (int (i + j))"
proof (induction ms arbitrary: i opts j)
  case Nil
  then show ?case by simp
next
  case (Cons m ms)
  then obtain r rs where r: "prepareOption e s i m = Inr r"
    and rs: "prepareOptions e s (Suc i) ms = Inr rs" and opts: "opts = r # rs"
    by (auto split: sum.splits)
  show ?case
  proof (cases j)
    case 0
    with r opts show ?thesis by (simp add: prepareOption_seqno)
  next
    case (Suc j')
    with Cons.prems opts have "j' < length rs" by simp
    from Cons.IH [OF rs this] Suc opts show ?thesis by simp
  qed
qed

lemma signLoop_exit:
  "\<not> (index < length opts \<and> attempt < attempts) \<Longrightarrow>
   signLoop e path fr opts msgs attempts index attempt signed calls = (Inr signed, calls)"
  by (subst signLoop.simps) (simp only: if_False)

lemma signLoop_ok:
  "index < length opts \<Longrightarrow> attempt < attempts \<Longrightarrow>
   signTransaction e attempt path (opts ! index) = Inr b \<Longrightarrow>
   signLoop e path fr opts msgs attempts index attempt signed calls =
   signLoop e path fr opts msgs attempts (Suc index) (Suc attempt)
     (signed @ [signedTransfer e fr b (opts ! index) (msgs ! index)]) (calls @ [opts ! index])"
  by (subst signLoop.simps) (simp add: Let_def)

lemma signLoop_declined:
  "index < length opts \<Longrightarrow> attempt < attempts \<Longrightarrow>
   signTransaction e attempt path (opts ! index) = Inl err \<Longrightarrow> userDeclined err \<Longrightarrow>
   signLoop e path fr opts msgs attempts index attempt signed calls =
   (Inl ApiUserRejectsError, calls @ [opts ! index])"
  by (subst signLoop.simps) (simp add: Let_def)

lemma signLoop_retry:
  "index < length opts \<Longrightarrow> attempt < attempts \<Longrightarrow>
   signTransaction e attempt path (opts ! index) = Inl err \<Longrightarrow> \<not> userDeclined err \<Longrightarrow>
   signLoop e path fr opts msgs attempts index attempt signed calls =
   signLoop e path fr opts msgs attempts index (Suc attempt) signed (calls @ [opts ! index])"
  by (subst signLoop.simps) (simp add: Let_def)


lemma signLoop_steps [case_names exit ok declined retry]:
  assumes "\<And>index attempt signed calls.
             \<not> (index < length opts \<and> attempt < attempts) \<Longrightarrow> P index attempt signed calls"
    and "\<And>index attempt signed calls b.
           index < length opts \<Longrightarrow> attempt < attempts \<Longrightarrow>
           signTransaction e attempt path (opts ! index) = Inr b \<Longrightarrow>
           P (Suc index) (Suc attempt)
             (signed @ [signedTransfer e fr b (opts ! index) (msgs ! index)])
             (calls @ [opts ! index]) \<Longrightarrow>
           P index attempt signed calls"
    and "\<And>index attempt signed calls err.
           index < length opts \<Longrightarrow> attempt < attempts \<Longrightarrow>
           signTransaction e attempt path (opts ! index) = Inl err \<Longrightarrow> userDeclined err \<Longrightarrow>
           P index attempt signed calls"
    and "\<And>index attempt signed calls err.
           index < length opts \<Longrightarrow> attempt < attempts \<Longrightarrow>
           signTransaction e attempt path (opts ! index) = Inl err \<Longrightarrow> \<not> userDeclined err \<Longrightarrow>
           P index (Suc attempt) signed (calls @ [opts ! index]) \<Longrightarrow>
           P index attempt signed calls"
  shows "P index attempt signed calls"
proof (induction "attempts - attempt" arbitrary: index attempt signed calls)
  case 0
  then show ?case using assms(1) by simp
next
  case (Suc n)
  show ?case
  proof (cases "index < length opts")
    case False
    then show ?thesis using assms(1) by simp
  next
    case True
    from Suc(2) have lt: "attempt < attempts" and n: "n = attempts - Suc attempt" by arith+
    show ?thesis
    proof (cases "signTransaction e attempt path (opts ! index)")
      case (Inr b)
      from assms(2) [OF True lt Inr Suc(1) [OF n]] show ?thesis .
    next
      case (Inl err)
      show ?thesis
      proof (cases "userDeclined err")
        case True
        from assms(3) [OF \<open>index < length opts\<close> lt Inl True] show ?thesis .
      next
        case False
        from assms(4) [OF True lt Inl False Suc(1) [OF n]] show ?thesis .
      qed
    qed
  qed
qed

text \<open>What every run of the loop satisfies.\<close>

lemma signLoop_calls_bound:
  "\<exists>rest. snd (signLoop e path fr opts msgs attempts index attempt signed calls) = calls @ rest
     \<and> length rest \<le> attempts - attempt"
proof (induction index attempt signed calls rule: signLoop_steps [of opts attempts _ e path fr msgs])
  case (exit index attempt signed calls)
  then show ?case by (simp add: signLoop_exit)
next
  case (ok index attempt signed calls b)
  then show ?case by (auto simp: signLoop_ok)
next
  case (declined index attempt signed calls err)
  then show ?case by (auto simp: signLoop_declined)
next
  case (retry index attempt signed calls err)
  then show ?case by (auto simp: signLoop_retry)
qed



lemma signLoop_calls_nth:
  assumes "signLoop e path fr opts msgs attempts index attempt signed (calls @ [x]) = (out, calls')"
  shows "calls' ! length calls = x"
proof -
  from signLoop_calls_bound [of e path fr opts msgs attempts index attempt signed "calls @ [x]"]
  obtain rest where "calls' = (calls @ [x]) @ rest" using assms by auto
  then show ?thesis by (simp add: nth_append)
qed

text \<open>A call answered with the declined status is the last call, and the run throws.\<close>

lemma signLoop_declined_last:
  "signLoop e path fr opts msgs attempts index attempt signed calls = (out, calls') \<Longrightarrow>
   length calls = attempt \<Longrightarrow> attempt \<le> a \<Longrightarrow> a < length calls' \<Longrightarrow>
   signTransaction e a path (calls' ! a) = Inl err \<Longrightarrow> userDeclined err \<Longrightarrow>
   out = Inl ApiUserRejectsError \<and> length calls' = Suc a"
proof (induction index attempt signed calls rule: signLoop_steps [of opts attempts _ e path fr msgs])
  case (exit index attempt signed calls)
  from exit(1) exit(2) have "calls' = calls" by (simp add: signLoop_exit)
  with exit show ?case by simp
next
  case (ok index attempt signed calls b)
  have next_run: "signLoop e path fr opts msgs attempts (Suc index) (Suc attempt)
          (signed @ [signedTransfer e fr b (opts ! index) (msgs ! index)])
          (calls @ [opts ! index]) = (out, calls')"
    using ok.prems(1) ok.hyps by (simp add: signLoop_ok)
  have "calls' ! attempt = opts ! index"
    using signLoop_calls_nth [OF next_run] ok.prems(2) by simp
  with ok.hyps(3) ok.prems(5) have "a \<noteq> attempt" by auto
  with ok.prems(3) have "Suc attempt \<le> a" by arith
  moreover have "length (calls @ [opts ! index]) = Suc attempt" using ok.prems(2) by simp
  ultimately show ?case
    using ok.IH [OF next_run] ok.prems(4,5,6) by blast
next
  case (declined index attempt signed calls err')
  have "out = Inl ApiUserRejectsError" and c: "calls' = calls @ [opts ! index]"
    using declined.prems(1) declined.hyps by (simp_all add: signLoop_declined)
  moreover from c declined.prems(2,3,4) have "a = attempt" by simp
  ultimately show ?case using declined.prems(2) by simp
next
  case (retry index attempt signed calls err')
  have next_run: "signLoop e path fr opts msgs attempts index (Suc attempt) signed
          (calls @ [opts ! index]) = (out, calls')"
    using retry.prems(1) retry.hyps by (simp add: signLoop_retry)
  have "calls' ! attempt = opts ! index"
    using signLoop_calls_nth [OF next_run] retry.prems(2) by simp
  with retry.hyps(3,4) retry.prems(5,6) have "a \<noteq> attempt" by auto
  with retry.prems(3) have "Suc attempt \<le> a" by arith
  moreover have "length (calls @ [opts ! index]) = Suc attempt" using retry.prems(2) by simp
  ultimately show ?case
    using retry.IH [OF next_run] retry.prems(4,5,6) by blast
qed


lemma st_seqno_signedTransfer [simp]:
  "st_seqno (signedTransfer e fr b options message) = seqno options"
  by (simp add: signedTransfer_def)

lemma signLoop_advance:
  "index + k \<le> length opts \<Longrightarrow> attempt + k \<le> attempts \<Longrightarrow>
   \<forall>j<k. signTransaction e (attempt + j) path (opts ! (index + j)) = Inr (b j) \<Longrightarrow>
   signLoop e path fr opts msgs attempts index attempt signed calls =
   signLoop e path fr opts msgs attempts (index + k) (attempt + k)
     (signed @ map (\<lambda>j. signedTransfer e fr (b j) (opts ! (index + j)) (msgs ! (index + j))) [0..<k])
     (calls @ take k (drop index opts))"
proof (induction k arbitrary: index attempt signed calls b)
  case 0
  then show ?case by simp
next
  case (Suc k)
  from Suc.prems(3) have b0: "signTransaction e attempt path (opts ! index) = Inr (b 0)"
    by force
  from Suc.prems(1,2) have lt: "index < length opts" "attempt < attempts" by arith+
  let ?st = "signedTransfer e fr (b 0) (opts ! index) (msgs ! index)"
  have step: "signLoop e path fr opts msgs attempts index attempt signed calls =
      signLoop e path fr opts msgs attempts (Suc index) (Suc attempt) (signed @ [?st])
        (calls @ [opts ! index])"
    using lt b0 by (rule signLoop_ok)
  have later: "\<forall>j<k. signTransaction e (Suc attempt + j) path (opts ! (Suc index + j))
      = Inr (b (Suc j))"
  proof (intro allI impI)
    fix j assume "j < k"
    then have "Suc j < Suc k" by simp
    with Suc.prems(3) have
      "signTransaction e (attempt + Suc j) path (opts ! (index + Suc j)) = Inr (b (Suc j))"
      by blast
    then show "signTransaction e (Suc attempt + j) path (opts ! (Suc index + j)) = Inr (b (Suc j))"
      by simp
  qed
  from Suc.prems(1,2) have "Suc index + k \<le> length opts" "Suc attempt + k \<le> attempts" by arith+
  from Suc.IH [OF this later, of "signed @ [?st]" "calls @ [opts ! index]"]
  have rest: "signLoop e path fr opts msgs attempts (Suc index) (Suc attempt) (signed @ [?st])
         (calls @ [opts ! index]) =
       signLoop e path fr opts msgs attempts (Suc index + k) (Suc attempt + k)
         ((signed @ [?st]) @
          map (\<lambda>j. signedTransfer e fr (b (Suc j)) (opts ! (Suc index + j)) (msgs ! (Suc index + j)))
            [0..<k])
         ((calls @ [opts ! index]) @ take k (drop (Suc index) opts))" .
  have dr: "take (Suc k) (drop index opts) = opts ! index # take k (drop (Suc index) opts)"
    using lt(1) by (simp add: Cons_nth_drop_Suc [symmetric])
  have mp: "map (\<lambda>j. signedTransfer e fr (b j) (opts ! (index + j)) (msgs ! (index + j))) [0..<Suc k]
      = ?st # map (\<lambda>j. signedTransfer e fr (b (Suc j)) (opts ! (Suc index + j))
                        (msgs ! (Suc index + j))) [0..<k]"
    by (simp only: map_upt_Suc) simp
  show ?case
    unfolding mp dr using step rest by simp
qed



lemma prepareOptions_seqnos:
  assumes "prepareOptions e S 0 msgs = Inr opts"
  shows "map seqno (take n opts) = map (\<lambda>i. jsAdd S (int i)) [0..<min n (length opts)]"
proof (rule nth_equalityI)
  show "length (map seqno (take n opts)) = length (map (\<lambda>i. jsAdd S (int i)) [0..<min n (length opts)])"
    by simp
next
  fix i assume "i < length (map seqno (take n opts))"
  then have i: "i < n" "i < length opts" by simp_all
  with prepareOptions_seqno [OF assms, of i]
  show "map seqno (take n opts) ! i = map (\<lambda>i. jsAdd S (int i)) [0..<min n (length opts)] ! i"
    by simp
qed

lemma signLedgerTransactions_run:
  assumes "waitLastTransfer e acc = Inr u" "getLedgerAccountPath e acc = Inr path"
    "fetchAddress e acc = Inr fr" "startSeqno e acc sq = Inr S"
    "prepareOptions e S 0 msgs = Inr opts"
  shows "signLedgerTransactions e acc msgs sq =
         signLoop e path fr opts msgs (ATTEMPTS + length opts) 0 0 [] []"
  using assms by (simp add: signLedgerTransactions_def)

lemma prepareOptions_nth:
  "prepareOptions e S i ms = Inr opts \<Longrightarrow> j < length ms \<Longrightarrow>
   prepareOption e S (i + j) (ms ! j) = Inr (opts ! j)"
proof (induction ms arbitrary: i opts j)
  case Nil
  then show ?case by simp
next
  case (Cons m ms)
  then obtain r rs where r: "prepareOption e S i m = Inr r"
    and rs: "prepareOptions e S (Suc i) ms = Inr rs" and opts: "opts = r # rs"
    by (auto split: sum.splits)
  show ?case
  proof (cases j)
    case 0
    with r opts show ?thesis by simp
  next
    case (Suc j')
    with Cons.prems have "j' < length ms" by simp
    from Cons.IH [OF rs this] Suc opts show ?thesis by simp
  qed
qed

lemma signLoop_calls_subset:
  "set (snd (signLoop e path fr opts msgs attempts index attempt signed calls))
     \<subseteq> set calls \<union> set opts"
proof (induction index attempt signed calls rule: signLoop_steps [of opts attempts _ e path fr msgs])
  case (exit index attempt signed calls)
  then show ?case by (simp add: signLoop_exit)
next
  case (ok index attempt signed calls b)
  then show ?case by (auto simp: signLoop_ok)
next
  case (declined index attempt signed calls err)
  then show ?case by (auto simp: signLoop_declined)
next
  case (retry index attempt signed calls err)
  then show ?case by (auto simp: signLoop_retry)
qed

text \<open>A run in which the first attempt for every message succeeds.\<close>

lemma batch_all_succeed:
  assumes "waitLastTransfer e accountId = Inr u"
    and "getLedgerAccountPath e accountId = Inr path"
    and "fetchAddress e accountId = Inr fromAddr"
    and "startSeqno e accountId seqnoArg = Inr S"
    and "prepareOptions e S 0 messages = Inr preparedOptions"
    and "\<forall>i<length messages. \<exists>b. signTransaction e i path (preparedOptions ! i) = Inr b"
  shows "\<exists>signed. signLedgerTransactions e accountId messages seqnoArg
                     = (Inr signed, preparedOptions)
           \<and> length signed = length messages
           \<and> (\<forall>i<length messages. \<exists>b.
                 signTransaction e i path (preparedOptions ! i) = Inr b \<and>
                 signed ! i = signedTransfer e fromAddr b (preparedOptions ! i) (messages ! i))
           \<and> map st_seqno signed = map seqno preparedOptions"
proof -
  let ?N = "length messages"
  have len: "length preparedOptions = ?N" using assms(5) by (rule prepareOptions_length)
  from assms(6) obtain b where
    b: "\<forall>i<?N. signTransaction e i path (preparedOptions ! i) = Inr (b i)" by metis
  let ?signed = "map (\<lambda>j. signedTransfer e fromAddr (b j) (preparedOptions ! (0 + j))
                          (messages ! (0 + j))) [0..<?N]"
  have "\<forall>j<?N. signTransaction e (0 + j) path (preparedOptions ! (0 + j)) = Inr (b j)"
    using b by simp
  from signLoop_advance [of 0 ?N preparedOptions 0 "ATTEMPTS + length preparedOptions" e path b,
      OF _ _ this, of fromAddr messages "[]" "[]"] len
  have "signLoop e path fromAddr preparedOptions messages (ATTEMPTS + length preparedOptions) 0 0 [] []
       = signLoop e path fromAddr preparedOptions messages (ATTEMPTS + length preparedOptions)
           ?N ?N ?signed preparedOptions"
    by simp
  also have "\<dots> = (Inr ?signed, preparedOptions)"
    using len by (intro signLoop_exit) simp
  finally have run: "signLedgerTransactions e accountId messages seqnoArg
      = (Inr ?signed, preparedOptions)"
    using signLedgerTransactions_run [OF assms(1-5)] by simp
  have "map st_seqno ?signed = map seqno preparedOptions"
    using len by (intro nth_equalityI) simp_all
  moreover have "\<forall>i<?N. \<exists>b'. signTransaction e i path (preparedOptions ! i) = Inr b' \<and>
      ?signed ! i = signedTransfer e fromAddr b' (preparedOptions ! i) (messages ! i)"
    using b by simp
  moreover have "length ?signed = ?N" by simp
  ultimately show ?thesis using run by blast
qed

lemma exact_seqnos:
  assumes "prepareOptions e S 0 messages = Inr preparedOptions"
    and "\<forall>i<length messages. \<bar>S + int i\<bar> \<le> 2 ^ 53"
  shows "map seqno preparedOptions = map (\<lambda>i. S + int i) [0..<length messages]"
proof -
  have len: "length preparedOptions = length messages"
    using assms(1) by (rule prepareOptions_length)
  show ?thesis
  proof (rule nth_equalityI)
    show "length (map seqno preparedOptions) = length (map (\<lambda>i. S + int i) [0..<length messages])"
      using len by simp
  next
    fix i assume "i < length (map seqno preparedOptions)"
    then have i: "i < length messages" "i < length preparedOptions" using len by simp_all
    with assms(2) have "jsAdd S (int i) = S + int i" by (simp add: jsAdd_exact)
    with prepareOptions_seqno [OF assms(1) i(2)] i
    show "map seqno preparedOptions ! i = map (\<lambda>i. S + int i) [0..<length messages] ! i"
      by simp
  qed
qed

text \<open>Runs of the sample environments, by evaluation.\<close>

lemmas sample_batch_defs =
  signLedgerTransactions_def getLedgerAccountPath_def getLedgerAccountPathByIndex_def
  startSeqno_def sampleMessages_def prepareOption_def declaredBounce_def stateInitOf_def
  sampleEnv_def sampleParse_def sampleParseFriendly_def signLoop.simps
  ATTEMPTS_def userDeclined_def CONDITIONS_OF_USE_NOT_SATISFIED_def Let_def

lemma sample_path: "getLedgerAccountPath sampleEnv ''acc'' = Inr [44, 607, 0, 0, 0, 0]"
  by (simp add: getLedgerAccountPath_def getLedgerAccountPathByIndex_def sampleEnv_def)

lemma sample_prepared:
  "\<exists>r0 r1. prepareOptions sampleEnv S 0 sampleMessages = Inr [r0, r1]"
  by (simp add: sampleMessages_def prepareOption_def declaredBounce_def stateInitOf_def
      sampleEnv_def sampleParse_def sampleParseFriendly_def)

lemma declining_run:
  "\<exists>r0 r1. signLedgerTransactions decliningEnv ''acc'' sampleMessages (Some 5)
     = (Inl ApiUserRejectsError, [r0, r1])"
  by (simp add: sample_batch_defs decliningEnv_def)

lemma flaky_prepared:
  "\<exists>r0 r1. prepareOptions flakyEnv 5 0 sampleMessages = Inr [r0, r1]"
  by (simp add: sampleMessages_def prepareOption_def declaredBounce_def stateInitOf_def
      flakyEnv_def sampleEnv_def sampleParse_def sampleParseFriendly_def)


lemma range_5: "\<forall>i<length sampleMessages. \<bar>5 + int i\<bar> \<le> 2 ^ 53"
  by (simp add: sampleMessages_def)

subsection \<open>Claims about the batch signer\<close>

text \<open>
  Claim C1, as the code has it. Let the caller supply the sequence number \<open>S\<close>, other
  than 0, and let every sum \<open>S + i\<close> for \<open>i < N\<close> be a whole number that a double holds
  exactly (at most \<open>2^53\<close> in absolute value), so that the addition of line 434 is
  exact. Then the request prepared for message \<open>i\<close> carries the sequence number
  \<open>S + i\<close>; and when the call for every message succeeds at the first attempt,
  \<open>signLedgerTransactions\<close> sends exactly the prepared requests, in order, and returns
  as many signed transfers as there are messages: transfer \<open>i\<close> is made of the answer
  of the device to request \<open>i\<close>, of that request and of message \<open>i\<close>, and the sequence
  numbers are \<open>S, S + 1, ..., S + N - 1\<close> in that order.
\<close>

theorem batch_seqnos_contiguous:
  assumes "seqnoArg = Some S" and "S \<noteq> 0"
    and "\<forall>i<length messages. \<bar>S + int i\<bar> \<le> 2 ^ 53"
    and "waitLastTransfer e accountId = Inr u"
    and "getLedgerAccountPath e accountId = Inr path"
    and "fetchAddress e accountId = Inr fromAddr"
    and "prepareOptions e S 0 messages = Inr preparedOptions"
    and "\<forall>i<length messages. \<exists>b. signTransaction e i path (preparedOptions ! i) = Inr b"
  shows "(\<forall>i<length messages. seqno (preparedOptions ! i) = S + int i) \<and>
         (\<exists>signed. signLedgerTransactions e accountId messages seqnoArg
                     = (Inr signed, preparedOptions)
                  \<and> length signed = length messages
                  \<and> (\<forall>i<length messages. \<exists>b.
                        signTransaction e i path (preparedOptions ! i) = Inr b \<and>
                        signed ! i = signedTransfer e fromAddr b (preparedOptions ! i) (messages ! i))
                  \<and> map st_seqno signed = map (\<lambda>i. S + int i) [0..<length messages])"
proof -
  let ?N = "length messages"
  have start: "startSeqno e accountId seqnoArg = Inr S"
    using assms(1,2) by (simp add: startSeqno_def)
  have len: "length preparedOptions = ?N" using assms(7) by (rule prepareOptions_length)
  have ex: "map seqno preparedOptions = map (\<lambda>i. S + int i) [0..<?N]"
    using assms(7,3) by (rule exact_seqnos)
  have assigned: "\<forall>i<?N. seqno (preparedOptions ! i) = S + int i"
  proof (intro allI impI)
    fix i assume i: "i < ?N"
    then have "map seqno preparedOptions ! i = seqno (preparedOptions ! i)" using len by simp
    with ex i show "seqno (preparedOptions ! i) = S + int i" by simp
  qed
  from batch_all_succeed [OF assms(4,5,6) start assms(7,8)] ex assigned
  show ?thesis by auto
qed

theorem batch_seqnos_contiguous_witness:
  "\<exists>signed calls. signLedgerTransactions sampleEnv ''acc'' sampleMessages (Some 5)
       = (Inr signed, calls)
     \<and> length signed = 2 \<and> map st_seqno signed = [5, 6] \<and> base64 (signed ! 0) = ''te6c''
     \<and> seqno (calls ! 0) = 5 \<and> seqno (calls ! 1) = 6"
proof -
  have 1: "waitLastTransfer sampleEnv ''acc'' = Inr ()" by (simp add: sampleEnv_def)
  have 3: "fetchAddress sampleEnv ''acc'' = Inr ''UQme''" by (simp add: sampleEnv_def)
  from sample_prepared obtain opts where
    5: "prepareOptions sampleEnv 5 0 sampleMessages = Inr opts" by blast
  have 6: "\<forall>i<length sampleMessages.
      \<exists>b. signTransaction sampleEnv i [44, 607, 0, 0, 0, 0] (opts ! i) = Inr b"
    by (simp add: sampleEnv_def)
  have n: "length sampleMessages = 2" "[0..<length sampleMessages] = [0, 1]"
    by (simp_all add: sampleMessages_def upt_rec)
  have sg: "signTransaction sampleEnv 0 [44, 607, 0, 0, 0, 0] (opts ! 0) = Inr b
      \<Longrightarrow> b = ''te6c''" for b
    by (simp add: sampleEnv_def)
  from batch_seqnos_contiguous [OF refl _ range_5 1 sample_path 3 5 6]
  obtain signed where s: "\<forall>i<length sampleMessages. seqno (opts ! i) = 5 + int i"
    "signLedgerTransactions sampleEnv ''acc'' sampleMessages (Some 5) = (Inr signed, opts)"
    "length signed = length sampleMessages"
    "\<forall>i<length sampleMessages. \<exists>b.
        signTransaction sampleEnv i [44, 607, 0, 0, 0, 0] (opts ! i) = Inr b \<and>
        signed ! i = signedTransfer sampleEnv ''UQme'' b (opts ! i) (sampleMessages ! i)"
    "map st_seqno signed = map (\<lambda>i. 5 + int i) [0..<length sampleMessages]"
    by auto
  have "0 < length sampleMessages" using n(1) by simp
  with s(4) obtain b where
    "signTransaction sampleEnv 0 [44, 607, 0, 0, 0, 0] (opts ! 0) = Inr b"
    "signed ! 0 = signedTransfer sampleEnv ''UQme'' b (opts ! 0) (sampleMessages ! 0)"
    by blast
  with sg have "base64 (signed ! 0) = ''te6c''" by (simp add: signedTransfer_def)
  moreover from s(1) n(1) have "seqno (opts ! 0) = 5" "seqno (opts ! 1) = 6" by simp_all
  ultimately show ?thesis using s(2,3,5) n by auto
qed

text \<open>
  Claim C1 as it is stated fails for the supplied sequence number 0 and beyond the
  whole numbers of a double. With the wallet at sequence number 7, a batch of two
  messages called with the sequence number 0 sends requests numbered 7 and 8 and
  returns transfers numbered 7 and 8, not 0 and 1 (lines 343-345 replace the 0); and
  called with \<open>2^53\<close> it numbers both requests \<open>2^53\<close>, since \<open>2^53 + 1\<close> rounds to \<open>2^53\<close>.
\<close>

theorem batch_seqno_zero_counterexample:
  "map seqno (snd (signLedgerTransactions sampleEnv ''acc'' sampleMessages (Some 0))) = [7, 8] \<and>
   map st_seqno (projr (fst (signLedgerTransactions sampleEnv ''acc'' sampleMessages (Some 0))))
     = [7, 8] \<and>
   map seqno (snd (signLedgerTransactions sampleEnv ''acc'' sampleMessages (Some (2 ^ 53))))
     = [2 ^ 53, 2 ^ 53]"
  by (simp add: sample_batch_defs signedTransfer_def jsAdd_def jsNumber_def bitsOver53.simps)

text \<open>
  Claim C2. In any run of \<open>signLedgerTransactions\<close>, if the device answers one of the
  signing calls of the run with an error whose status code is
  \<open>CONDITIONS_OF_USE_NOT_SATISFIED\<close>, then the run ends by throwing
  \<open>ApiUserRejectsError\<close> (no list is returned, so no partial result) and that call is
  the last one sent to the device: no later message is signed and nothing is retried.
\<close>

theorem batch_user_declined_aborts:
  assumes "signLedgerTransactions e accountId messages seqnoArg = (out, calls)"
    and "getLedgerAccountPath e accountId = Inr path"
    and "a < length calls"
    and "signTransaction e a path (calls ! a) = Inl err"
    and "statusCode err = Some CONDITIONS_OF_USE_NOT_SATISFIED"
  shows "out = Inl ApiUserRejectsError \<and> length calls = Suc a"
proof -
  from assms(1,3) obtain fr opts where
    run: "signLoop e path fr opts messages (ATTEMPTS + length opts) 0 0 [] [] = (out, calls)"
    using assms(2) by (auto simp: signLedgerTransactions_def split: sum.splits)
  from assms(5) have "userDeclined err" by (simp add: userDeclined_def)
  from signLoop_declined_last [OF run _ _ assms(3,4) this] show ?thesis by simp
qed

theorem batch_user_declined_aborts_witness:
  "fst (signLedgerTransactions decliningEnv ''acc'' sampleMessages (Some 5)) = Inl ApiUserRejectsError
   \<and> length (snd (signLedgerTransactions decliningEnv ''acc'' sampleMessages (Some 5))) = 2"
proof -
  from declining_run obtain r0 r1 where
    run: "signLedgerTransactions decliningEnv ''acc'' sampleMessages (Some 5)
            = (Inl ApiUserRejectsError, [r0, r1])" by blast
  have path: "getLedgerAccountPath decliningEnv ''acc'' = Inr [44, 607, 0, 0, 0, 0]"
    by (simp add: getLedgerAccountPath_def getLedgerAccountPathByIndex_def decliningEnv_def
        sampleEnv_def)
  have a: "(1::nat) < length [r0, r1]" by simp
  have err: "signTransaction decliningEnv 1 [44, 607, 0, 0, 0, 0] ([r0, r1] ! 1)
      = Inl (External (Some 0x6985) ''Ledger device: Condition of use not satisfied'')"
    by (simp add: decliningEnv_def)
  have code: "statusCode (External (Some 0x6985) ''Ledger device: Condition of use not satisfied'')
      = Some CONDITIONS_OF_USE_NOT_SATISFIED"
    by (simp add: CONDITIONS_OF_USE_NOT_SATISFIED_def)
  from batch_user_declined_aborts [OF run path a err code] run show ?thesis by simp
qed

text \<open>
  Claim C3. At any \<open>index\<close> and any \<open>attempt\<close> within the list and the budget, when the
  signing call fails with an error that does not carry the declined status, the loop
  goes on from the same \<open>index\<close> with \<open>attempt\<close> increased by one, the list of signed
  transfers unchanged and that request recorded as sent. And when, in a batch that
  starts from \<open>S\<close>, the first call for message \<open>k\<close> fails so while the calls for the
  messages before \<open>k\<close>, the second call for \<open>k\<close> and the calls for the messages after
  \<open>k\<close> all succeed, the run sends request \<open>k\<close> twice and every other request once, in
  order, and returns \<open>N\<close> signed transfers: transfer \<open>i\<close> is made of the answer of the
  device to the successful call for request \<open>i\<close>, and the sequence numbers are those of
  the prepared requests, \<open>S, ..., S + N - 1\<close> (as doubles; exactly so when the sums are
  at most \<open>2^53\<close> in absolute value).
\<close>

theorem batch_transient_error_retried:
  "(index < length opts \<and> attempt < attempts \<and>
    signTransaction e attempt path (opts ! index) = Inl err \<and>
    statusCode err \<noteq> Some CONDITIONS_OF_USE_NOT_SATISFIED \<longrightarrow>
      signLoop e path fr opts msgs attempts index attempt signed0 calls0 =
      signLoop e path fr opts msgs attempts index (Suc attempt) signed0 (calls0 @ [opts ! index])) \<and>
   (waitLastTransfer e accountId = Inr u \<and>
    getLedgerAccountPath e accountId = Inr path \<and>
    fetchAddress e accountId = Inr fromAddr \<and>
    startSeqno e accountId seqnoArg = Inr S \<and>
    prepareOptions e S 0 messages = Inr preparedOptions \<and>
    k < length messages \<and>
    signTransaction e k path (preparedOptions ! k) = Inl err \<and>
    statusCode err \<noteq> Some CONDITIONS_OF_USE_NOT_SATISFIED \<and>
    (\<forall>i<k. \<exists>b. signTransaction e i path (preparedOptions ! i) = Inr b) \<and>
    (\<forall>i. k \<le> i \<and> i < length messages \<longrightarrow>
           (\<exists>b. signTransaction e (Suc i) path (preparedOptions ! i) = Inr b)) \<longrightarrow>
      (\<exists>signed. signLedgerTransactions e accountId messages seqnoArg
                  = (Inr signed, take (Suc k) preparedOptions @ drop k preparedOptions)
               \<and> length signed = length messages
               \<and> (\<forall>i<length messages. \<exists>b.
                     signTransaction e (if i < k then i else Suc i) path (preparedOptions ! i)
                       = Inr b \<and>
                     signed ! i = signedTransfer e fromAddr b (preparedOptions ! i) (messages ! i))
               \<and> map st_seqno signed = map seqno preparedOptions
               \<and> (\<forall>i<length messages. seqno (preparedOptions ! i) = jsAdd S (int i))
               \<and> ((\<forall>i<length messages. \<bar>S + int i\<bar> \<le> 2 ^ 53) \<longrightarrow>
                    map st_seqno signed = map (\<lambda>i. S + int i) [0..<length messages])))"
proof (intro conjI impI)
  assume "index < length opts \<and> attempt < attempts \<and>
    signTransaction e attempt path (opts ! index) = Inl err \<and>
    statusCode err \<noteq> Some CONDITIONS_OF_USE_NOT_SATISFIED"
  then show "signLoop e path fr opts msgs attempts index attempt signed0 calls0 =
      signLoop e path fr opts msgs attempts index (Suc attempt) signed0 (calls0 @ [opts ! index])"
    by (intro signLoop_retry [of index opts attempt attempts e path err]) (simp_all add: userDeclined_def)
next
  assume h: "waitLastTransfer e accountId = Inr u \<and>
    getLedgerAccountPath e accountId = Inr path \<and>
    fetchAddress e accountId = Inr fromAddr \<and>
    startSeqno e accountId seqnoArg = Inr S \<and>
    prepareOptions e S 0 messages = Inr preparedOptions \<and>
    k < length messages \<and>
    signTransaction e k path (preparedOptions ! k) = Inl err \<and>
    statusCode err \<noteq> Some CONDITIONS_OF_USE_NOT_SATISFIED \<and>
    (\<forall>i<k. \<exists>b. signTransaction e i path (preparedOptions ! i) = Inr b) \<and>
    (\<forall>i. k \<le> i \<and> i < length messages \<longrightarrow>
           (\<exists>b. signTransaction e (Suc i) path (preparedOptions ! i) = Inr b))"
  let ?N = "length messages"
  let ?A = "ATTEMPTS + length preparedOptions"
  let ?loop = "signLoop e path fromAddr preparedOptions messages ?A"
  from h have prep: "prepareOptions e S 0 messages = Inr preparedOptions" by simp
  have len: "length preparedOptions = ?N" using prep by (rule prepareOptions_length)
  have budget: "Suc ?N \<le> ?A" using len by (simp add: ATTEMPTS_def)
  have nd: "\<not> userDeclined err" using h by (simp add: userDeclined_def)
  have kN: "k < length preparedOptions" "k < ?A" using h len by simp_all
  have fail: "signTransaction e k path (preparedOptions ! k) = Inl err" using h by simp
  have retry: "?loop k k signed calls = ?loop k (Suc k) signed (calls @ [preparedOptions ! k])"
    for signed calls
    using kN fail nd by (rule signLoop_retry)
  from h obtain b1 where
    b1: "\<forall>i<k. signTransaction e i path (preparedOptions ! i) = Inr (b1 i)" by metis
  from h obtain b2 where
    b2: "\<forall>i. k \<le> i \<and> i < ?N \<longrightarrow> signTransaction e (Suc i) path (preparedOptions ! i) = Inr (b2 i)"
    by metis
  let ?new1 = "map (\<lambda>j. signedTransfer e fromAddr (b1 j) (preparedOptions ! (0 + j))
                        (messages ! (0 + j))) [0..<k]"
  let ?new2 = "map (\<lambda>j. signedTransfer e fromAddr (b2 (k + j)) (preparedOptions ! (k + j))
                        (messages ! (k + j))) [0..<?N - k]"
  have "\<forall>j<k. signTransaction e (0 + j) path (preparedOptions ! (0 + j)) = Inr (b1 j)"
    using b1 by simp
  from signLoop_advance [of 0 k preparedOptions 0 ?A e path b1, OF _ _ this,
      of fromAddr messages "[]" "[]"] kN
  have run1: "?loop 0 0 [] [] = ?loop k k ?new1 (take k preparedOptions)" by simp
  have "\<forall>j<?N - k. signTransaction e (Suc k + j) path (preparedOptions ! (k + j))
      = Inr (b2 (k + j))"
  proof (intro allI impI)
    fix j assume "j < ?N - k"
    then have "k \<le> k + j \<and> k + j < ?N" by arith
    with b2 have "signTransaction e (Suc (k + j)) path (preparedOptions ! (k + j))
        = Inr (b2 (k + j))" by blast
    then show "signTransaction e (Suc k + j) path (preparedOptions ! (k + j)) = Inr (b2 (k + j))"
      by simp
  qed
  from signLoop_advance [of k "?N - k" preparedOptions "Suc k" ?A e path "\<lambda>j. b2 (k + j)",
      OF _ _ this, of fromAddr messages ?new1 "take k preparedOptions @ [preparedOptions ! k]"]
    h len budget
  have run2: "?loop k (Suc k) ?new1 (take k preparedOptions @ [preparedOptions ! k]) =
       ?loop (k + (?N - k)) (Suc k + (?N - k)) (?new1 @ ?new2)
         ((take k preparedOptions @ [preparedOptions ! k]) @ take (?N - k) (drop k preparedOptions))"
    by simp
  have calls: "(take k preparedOptions @ [preparedOptions ! k]) @ take (?N - k) (drop k preparedOptions)
      = take (Suc k) preparedOptions @ drop k preparedOptions"
    using kN(1) len by (simp add: take_Suc_conv_app_nth)
  have "?loop (k + (?N - k)) (Suc k + (?N - k)) (?new1 @ ?new2)
          (take (Suc k) preparedOptions @ drop k preparedOptions)
        = (Inr (?new1 @ ?new2), take (Suc k) preparedOptions @ drop k preparedOptions)"
    using len h by (intro signLoop_exit) simp
  with run1 retry [of ?new1 "take k preparedOptions"] run2 calls
  have loop: "?loop 0 0 [] []
      = (Inr (?new1 @ ?new2), take (Suc k) preparedOptions @ drop k preparedOptions)"
    by simp
  from h have pre: "waitLastTransfer e accountId = Inr u"
    "getLedgerAccountPath e accountId = Inr path" "fetchAddress e accountId = Inr fromAddr"
    "startSeqno e accountId seqnoArg = Inr S" by simp_all
  from loop signLedgerTransactions_run [OF pre prep]
  have run: "signLedgerTransactions e accountId messages seqnoArg
      = (Inr (?new1 @ ?new2), take (Suc k) preparedOptions @ drop k preparedOptions)"
    by simp
  have length: "length (?new1 @ ?new2) = ?N" using h by simp
  have nth: "\<forall>i<?N. \<exists>b. signTransaction e (if i < k then i else Suc i) path (preparedOptions ! i)
        = Inr b \<and>
      (?new1 @ ?new2) ! i = signedTransfer e fromAddr b (preparedOptions ! i) (messages ! i)"
  proof (intro allI impI)
    fix i assume i: "i < ?N"
    show "\<exists>b. signTransaction e (if i < k then i else Suc i) path (preparedOptions ! i) = Inr b \<and>
      (?new1 @ ?new2) ! i = signedTransfer e fromAddr b (preparedOptions ! i) (messages ! i)"
    proof (cases "i < k")
      case True
      then have "(?new1 @ ?new2) ! i
          = signedTransfer e fromAddr (b1 i) (preparedOptions ! i) (messages ! i)"
        by (simp add: nth_append)
      with b1 True show ?thesis by simp
    next
      case False
      then have ki: "k \<le> i" by simp
      with i have "i - k < ?N - k" by arith
      with False ki have "(?new1 @ ?new2) ! i
          = signedTransfer e fromAddr (b2 i) (preparedOptions ! i) (messages ! i)"
        by (simp add: nth_append)
      with b2 ki i False show ?thesis by simp
    qed
  qed
  have seqs: "map st_seqno (?new1 @ ?new2) = map seqno preparedOptions"
  proof (rule nth_equalityI)
    show "length (map st_seqno (?new1 @ ?new2)) = length (map seqno preparedOptions)"
      using length len by simp
  next
    fix i assume "i < length (map st_seqno (?new1 @ ?new2))"
    then have i: "i < ?N" using length by simp
    with nth obtain b where "(?new1 @ ?new2) ! i
        = signedTransfer e fromAddr b (preparedOptions ! i) (messages ! i)" by blast
    then have "st_seqno ((?new1 @ ?new2) ! i) = seqno (preparedOptions ! i)" by simp
    with i length len show "map st_seqno (?new1 @ ?new2) ! i = map seqno preparedOptions ! i"
      by (simp del: map_append)
  qed
  have assigned: "\<forall>i<?N. seqno (preparedOptions ! i) = jsAdd S (int i)"
    using prepareOptions_seqno [OF prep] len by simp
  have exact: "(\<forall>i<?N. \<bar>S + int i\<bar> \<le> 2 ^ 53) \<longrightarrow>
      map st_seqno (?new1 @ ?new2) = map (\<lambda>i. S + int i) [0..<?N]"
    using exact_seqnos [OF prep] seqs by simp
  from run length nth seqs assigned exact
  show "\<exists>signed. signLedgerTransactions e accountId messages seqnoArg
                  = (Inr signed, take (Suc k) preparedOptions @ drop k preparedOptions)
               \<and> length signed = length messages
               \<and> (\<forall>i<length messages. \<exists>b.
                     signTransaction e (if i < k then i else Suc i) path (preparedOptions ! i)
                       = Inr b \<and>
                     signed ! i = signedTransfer e fromAddr b (preparedOptions ! i) (messages ! i))
               \<and> map st_seqno signed = map seqno preparedOptions
               \<and> (\<forall>i<length messages. seqno (preparedOptions ! i) = jsAdd S (int i))
               \<and> ((\<forall>i<length messages. \<bar>S + int i\<bar> \<le> 2 ^ 53) \<longrightarrow>
                    map st_seqno signed = map (\<lambda>i. S + int i) [0..<length messages])"
    by blast
qed

theorem batch_transient_error_retried_witness:
  "(\<exists>opts. prepareOptions flakyEnv 5 0 sampleMessages = Inr opts \<and>
      signLoop flakyEnv [44, 607, 0, 0, 0, 0] ''UQme'' opts sampleMessages 12 1 1 [] [] =
      signLoop flakyEnv [44, 607, 0, 0, 0, 0] ''UQme'' opts sampleMessages 12 1 (Suc 1) []
        [opts ! 1]) \<and>
   (\<exists>signed calls. signLedgerTransactions flakyEnv ''acc'' sampleMessages (Some 5)
       = (Inr signed, calls)
     \<and> length signed = 2 \<and> length calls = 3 \<and> map st_seqno signed = [5, 6])"
proof -
  have 1: "waitLastTransfer flakyEnv ''acc'' = Inr ()" by (simp add: flakyEnv_def sampleEnv_def)
  have 2: "getLedgerAccountPath flakyEnv ''acc'' = Inr [44, 607, 0, 0, 0, 0]"
    by (simp add: getLedgerAccountPath_def getLedgerAccountPathByIndex_def flakyEnv_def
        sampleEnv_def)
  have 3: "fetchAddress flakyEnv ''acc'' = Inr ''UQme''" by (simp add: flakyEnv_def sampleEnv_def)
  have 4: "startSeqno flakyEnv ''acc'' (Some 5) = Inr 5" by (simp add: startSeqno_def)
  from flaky_prepared obtain r0 r1 where
    5: "prepareOptions flakyEnv 5 0 sampleMessages = Inr [r0, r1]" by blast
  have 6: "1 < length sampleMessages" by (simp add: sampleMessages_def)
  have 7: "signTransaction flakyEnv 1 [44, 607, 0, 0, 0, 0] ([r0, r1] ! 1)
      = Inl (External None ''Timeout'')" by (simp add: flakyEnv_def)
  have 8: "statusCode (External None ''Timeout'') \<noteq> Some CONDITIONS_OF_USE_NOT_SATISFIED"
    by simp
  have 9: "\<forall>i<1. \<exists>b. signTransaction flakyEnv i [44, 607, 0, 0, 0, 0] ([r0, r1] ! i) = Inr b"
    by (simp add: flakyEnv_def)
  have 10: "\<forall>i. 1 \<le> i \<and> i < length sampleMessages \<longrightarrow>
      (\<exists>b. signTransaction flakyEnv (Suc i) [44, 607, 0, 0, 0, 0] ([r0, r1] ! i) = Inr b)"
    by (simp add: flakyEnv_def)
  have n: "[0..<length sampleMessages] = [0, 1]" by (simp add: sampleMessages_def upt_rec)
  have step: "(1::nat) < length [r0, r1] \<and> (1::nat) < 12 \<and>
      signTransaction flakyEnv 1 [44, 607, 0, 0, 0, 0] ([r0, r1] ! 1)
        = Inl (External None ''Timeout'') \<and>
      statusCode (External None ''Timeout'') \<noteq> Some CONDITIONS_OF_USE_NOT_SATISFIED"
    using 7 by simp
  from batch_transient_error_retried [of 1 "[r0, r1]" 1 12 flakyEnv "[44, 607, 0, 0, 0, 0]"
      "External None ''Timeout''" "''UQme''" sampleMessages "[]" "[]" "''acc''" "()" "''UQme''"
      "Some 5" 5 sampleMessages "[r0, r1]" 1] step
  have a: "signLoop flakyEnv [44, 607, 0, 0, 0, 0] ''UQme'' [r0, r1] sampleMessages 12 1 1 [] [] =
      signLoop flakyEnv [44, 607, 0, 0, 0, 0] ''UQme'' [r0, r1] sampleMessages 12 1 (Suc 1) []
        ([] @ [[r0, r1] ! 1])"
    by blast
  from batch_transient_error_retried [of 1 "[r0, r1]" 1 12 flakyEnv "[44, 607, 0, 0, 0, 0]"
      "External None ''Timeout''" "''UQme''" sampleMessages "[]" "[]" "''acc''" "()" "''UQme''"
      "Some 5" 5 sampleMessages "[r0, r1]" 1] 1 2 3 4 5 6 7 8 9 10 range_5
  obtain signed where b: "signLedgerTransactions flakyEnv ''acc'' sampleMessages (Some 5)
      = (Inr signed, take (Suc 1) [r0, r1] @ drop 1 [r0, r1])"
    "length signed = length sampleMessages"
    "map st_seqno signed = map (\<lambda>i. 5 + int i) [0..<length sampleMessages]"
    by blast
  from a 5 have "\<exists>opts. prepareOptions flakyEnv 5 0 sampleMessages = Inr opts \<and>
      signLoop flakyEnv [44, 607, 0, 0, 0, 0] ''UQme'' opts sampleMessages 12 1 1 [] [] =
      signLoop flakyEnv [44, 607, 0, 0, 0, 0] ''UQme'' opts sampleMessages 12 1 (Suc 1) []
        [opts ! 1]" by auto
  moreover from b n have "\<exists>signed calls. signLedgerTransactions flakyEnv ''acc'' sampleMessages (Some 5)
       = (Inr signed, calls)
     \<and> length signed = 2 \<and> length calls = 3 \<and> map st_seqno signed = [5, 6]"
    by (auto simp: sampleMessages_def)
  ultimately show ?thesis by blast
qed



text \<open>
  Claim C9. Called with the sequence number 0, \<open>signLedgerTransactions\<close> takes the
  sequence number from \<open>getWalletSeqno\<close> and behaves in every respect as when it is
  called with no sequence number. Once the last transfer has been awaited and the path
  and the address are known: when \<open>getWalletSeqno\<close> throws, the run throws that error
  and sends nothing; when it returns \<open>fetched\<close> and every call succeeds at the first
  attempt, request \<open>i\<close> carries \<open>fetched + i\<close> (the sum of line 434) and so do the
  transfers returned. In every run every request sent carries \<open>fetched + i\<close> for some
  \<open>i < N\<close>: the caller's 0 is not used.
\<close>

theorem batch_seqno_zero_is_absent:
  "startSeqno e accountId (Some 0) = getWalletSeqno e accountId \<and>
   signLedgerTransactions e accountId messages (Some 0)
     = signLedgerTransactions e accountId messages None \<and>
   (waitLastTransfer e accountId = Inr u \<and>
    getLedgerAccountPath e accountId = Inr path \<and>
    fetchAddress e accountId = Inr fromAddr \<longrightarrow>
      (getWalletSeqno e accountId = Inl err \<longrightarrow>
         signLedgerTransactions e accountId messages (Some 0) = (Inl err, [])) \<and>
      (getWalletSeqno e accountId = Inr fetched \<and>
       prepareOptions e fetched 0 messages = Inr preparedOptions \<and>
       (\<forall>i<length messages. \<exists>b. signTransaction e i path (preparedOptions ! i) = Inr b) \<longrightarrow>
         (\<forall>i<length messages. seqno (preparedOptions ! i) = jsAdd fetched (int i)) \<and>
         (\<exists>signed. signLedgerTransactions e accountId messages (Some 0)
                     = (Inr signed, preparedOptions)
                  \<and> length signed = length messages
                  \<and> map st_seqno signed
                      = map (\<lambda>i. jsAdd fetched (int i)) [0..<length messages]))) \<and>
   (getWalletSeqno e accountId = Inr fetched \<and>
    r \<in> set (snd (signLedgerTransactions e accountId messages (Some 0))) \<longrightarrow>
      (\<exists>i<length messages. seqno r = jsAdd fetched (int i)))"
proof (intro conjI impI)
  show start: "startSeqno e accountId (Some 0) = getWalletSeqno e accountId"
    by (simp add: startSeqno_def)
  have eq: "startSeqno e accountId (Some 0) = startSeqno e accountId None"
    by (simp add: startSeqno_def)
  show "signLedgerTransactions e accountId messages (Some 0)
     = signLedgerTransactions e accountId messages None"
    by (simp only: signLedgerTransactions_def eq)
next
  assume "waitLastTransfer e accountId = Inr u \<and>
    getLedgerAccountPath e accountId = Inr path \<and>
    fetchAddress e accountId = Inr fromAddr" "getWalletSeqno e accountId = Inl err"
  then show "signLedgerTransactions e accountId messages (Some 0) = (Inl err, [])"
    by (simp add: signLedgerTransactions_def startSeqno_def)
next
  assume pre: "waitLastTransfer e accountId = Inr u \<and>
    getLedgerAccountPath e accountId = Inr path \<and>
    fetchAddress e accountId = Inr fromAddr"
    and h: "getWalletSeqno e accountId = Inr fetched \<and>
       prepareOptions e fetched 0 messages = Inr preparedOptions \<and>
       (\<forall>i<length messages. \<exists>b. signTransaction e i path (preparedOptions ! i) = Inr b)"
  from h have prep: "prepareOptions e fetched 0 messages = Inr preparedOptions" by simp
  have len: "length preparedOptions = length messages" using prep by (rule prepareOptions_length)
  from h have start: "startSeqno e accountId (Some 0) = Inr fetched" by (simp add: startSeqno_def)
  show assigned: "\<forall>i<length messages. seqno (preparedOptions ! i) = jsAdd fetched (int i)"
    using prepareOptions_seqno [OF prep] len by simp
  from pre h have p: "waitLastTransfer e accountId = Inr u"
    "getLedgerAccountPath e accountId = Inr path" "fetchAddress e accountId = Inr fromAddr"
    "\<forall>i<length messages. \<exists>b. signTransaction e i path (preparedOptions ! i) = Inr b"
    by simp_all
  from batch_all_succeed [OF p(1,2,3) start prep p(4)] obtain signed where
    s: "signLedgerTransactions e accountId messages (Some 0) = (Inr signed, preparedOptions)"
       "length signed = length messages" "map st_seqno signed = map seqno preparedOptions"
    by blast
  have "map seqno preparedOptions = map (\<lambda>i. jsAdd fetched (int i)) [0..<length messages]"
    using prepareOptions_seqnos [OF prep, of "length messages"] len by simp
  with s show "\<exists>signed. signLedgerTransactions e accountId messages (Some 0)
                     = (Inr signed, preparedOptions)
                  \<and> length signed = length messages
                  \<and> map st_seqno signed
                      = map (\<lambda>i. jsAdd fetched (int i)) [0..<length messages]" by simp
next
  assume h: "getWalletSeqno e accountId = Inr fetched \<and>
    r \<in> set (snd (signLedgerTransactions e accountId messages (Some 0)))"
  then obtain path fr opts where prep: "prepareOptions e fetched 0 messages = Inr opts"
    and r: "r \<in> set (snd (signLoop e path fr opts messages (ATTEMPTS + length opts) 0 0 [] []))"
    by (auto simp: signLedgerTransactions_def startSeqno_def split: sum.splits)
  from r signLoop_calls_subset [of e path fr opts messages "ATTEMPTS + length opts" 0 0 "[]" "[]"]
  have "r \<in> set opts" by auto
  then obtain i where i: "i < length opts" "opts ! i = r" by (auto simp: in_set_conv_nth)
  with prepareOptions_length [OF prep] prepareOptions_seqno [OF prep, of i]
  show "\<exists>i<length messages. seqno r = jsAdd fetched (int i)" by auto
qed

theorem batch_seqno_zero_is_absent_witness:
  "(\<exists>signed calls. signLedgerTransactions sampleEnv ''acc'' sampleMessages (Some 0)
       = (Inr signed, calls)
     \<and> length signed = 2 \<and> map st_seqno signed = [7, 8]
     \<and> seqno (calls ! 0) = 7 \<and> seqno (calls ! 1) = 8) \<and>
   signLedgerTransactions
     (sampleEnv \<lparr> getWalletSeqno := (\<lambda>a. Inl (External None ''Offline'')) \<rparr>)
     ''acc'' sampleMessages (Some 0) = (Inl (External None ''Offline''), [])"
proof -
  let ?off = "sampleEnv \<lparr> getWalletSeqno := (\<lambda>a. Inl (External None ''Offline'')) \<rparr>"
  have pre: "waitLastTransfer sampleEnv ''acc'' = Inr () \<and>
    getLedgerAccountPath sampleEnv ''acc'' = Inr [44, 607, 0, 0, 0, 0] \<and>
    fetchAddress sampleEnv ''acc'' = Inr ''UQme''"
    using sample_path by (simp add: sampleEnv_def)
  have pre': "waitLastTransfer ?off ''acc'' = Inr () \<and>
    getLedgerAccountPath ?off ''acc'' = Inr [44, 607, 0, 0, 0, 0] \<and>
    fetchAddress ?off ''acc'' = Inr ''UQme''"
    by (simp add: getLedgerAccountPath_def getLedgerAccountPathByIndex_def sampleEnv_def)
  have off: "getWalletSeqno ?off ''acc'' = Inl (External None ''Offline'')" by simp
  from sample_prepared obtain opts where
    5: "prepareOptions sampleEnv 7 0 sampleMessages = Inr opts" by blast
  have h: "getWalletSeqno sampleEnv ''acc'' = Inr 7 \<and>
       prepareOptions sampleEnv 7 0 sampleMessages = Inr opts \<and>
       (\<forall>i<length sampleMessages.
          \<exists>b. signTransaction sampleEnv i [44, 607, 0, 0, 0, 0] (opts ! i) = Inr b)"
    using 5 by (simp add: sampleEnv_def)
  have n: "length sampleMessages = 2" "[0..<length sampleMessages] = [0, 1]"
    by (simp_all add: sampleMessages_def upt_rec)
  from batch_seqno_zero_is_absent [of sampleEnv "''acc''" sampleMessages "()"
      "[44, 607, 0, 0, 0, 0]" "''UQme''" "External None ''Offline''" 7 opts] pre h
  obtain signed where s: "\<forall>i<length sampleMessages. seqno (opts ! i) = jsAdd 7 (int i)"
    "signLedgerTransactions sampleEnv ''acc'' sampleMessages (Some 0) = (Inr signed, opts)"
    "length signed = length sampleMessages"
    "map st_seqno signed = map (\<lambda>i. jsAdd 7 (int i)) [0..<length sampleMessages]"
    by blast
  from s(1) n(1) have "seqno (opts ! 0) = 7" "seqno (opts ! 1) = 8"
    by (simp_all add: jsAdd_exact)
  moreover from s(4) n have "map st_seqno signed = [7, 8]" by (simp add: jsAdd_exact)
  moreover from batch_seqno_zero_is_absent [of ?off "''acc''" sampleMessages "()"
      "[44, 607, 0, 0, 0, 0]" "''UQme''" "External None ''Offline''"] pre' off
  have "signLedgerTransactions ?off ''acc'' sampleMessages (Some 0)
      = (Inl (External None ''Offline''), [])" by blast
  ultimately show ?thesis using s(2,3) n(1) by auto
qed

subsection \<open>Account discovery\<close>

lemma scanLedgerWallets_nonempty:
  assumes run: "scanLedgerWallets w network imported index result = Some (Inr ws)"
  shows "ws \<noteq> []"
proof -
  have "\<forall>ws'. Inr ws = (Inr ws' :: thrown + ledger_wallet_info list) \<longrightarrow> ws' \<noteq> []"
  proof (rule scanLedgerWallets.raw_induct
      [where P = "\<lambda>w network imported index result y. \<forall>ws'. y = Inr ws' \<longrightarrow> ws' \<noteq> []", OF _ run])
    fix scan :: "wallet_env \<Rightarrow> string \<Rightarrow> string list \<Rightarrow> int \<Rightarrow> ledger_wallet_info list
                   \<Rightarrow> (thrown + ledger_wallet_info list) option"
      and w network imported index result y
    assume IH: "\<And>w network imported index result y.
        scan w network imported index result = Some y \<Longrightarrow> \<forall>ws'. y = Inr ws' \<longrightarrow> ws' \<noteq> []"
    assume step: "(case getLedgerWalletInfo w network index of
        Inl err \<Rightarrow> Some (Inl err)
      | Inr walletInfo \<Rightarrow>
          if address walletInfo \<in> set imported
          then scan w network imported (index + 1) result
          else if balance walletInfo \<noteq> 0
          then scan w network imported (index + 1) (result @ [walletInfo])
          else Some (Inr (if result = [] then result @ [walletInfo] else result))) = Some y"
    show "\<forall>ws'. y = Inr ws' \<longrightarrow> ws' \<noteq> []"
    proof (cases "getLedgerWalletInfo w network index")
      case (Inl err)
      with step show ?thesis by auto
    next
      case (Inr info)
      show ?thesis
      proof (cases "address info \<in> set imported")
        case True
        with step Inr have "scan w network imported (index + 1) result = Some y" by simp
        then show ?thesis by (rule IH)
      next
        case False
        show ?thesis
        proof (cases "balance info \<noteq> 0")
          case True
          with step Inr False
          have "scan w network imported (index + 1) (result @ [info]) = Some y" by simp
          then show ?thesis by (rule IH)
        next
          case zero: False
          with step Inr False
          have "y = Inr (if result = [] then result @ [info] else result)" by simp
          then show ?thesis by (auto split: if_splits)
        qed
      qed
    qed
  qed
  then show ?thesis by simp
qed

lemma scanLedgerWallets_record:
  "getLedgerWalletInfo w network index = Inr info \<Longrightarrow> address info \<notin> set imported \<Longrightarrow>
   balance info \<noteq> 0 \<Longrightarrow>
   scanLedgerWallets w network imported index result
     = scanLedgerWallets w network imported (index + 1) (result @ [info])"
  by (subst scanLedgerWallets.simps) simp

lemma scanLedgerWallets_stop:
  "getLedgerWalletInfo w network index = Inr info \<Longrightarrow> address info \<notin> set imported \<Longrightarrow>
   balance info = 0 \<Longrightarrow>
   scanLedgerWallets w network imported index result
     = Some (Inr (if result = [] then [info] else result))"
  by (subst scanLedgerWallets.simps) simp

lemma three_info0: "getLedgerWalletInfo (sampleWallets [''UQa0'', ''UQa1'', ''UQa2'']
     [(''UQa0'', 5), (''UQa1'', 0), (''UQa2'', 3)]) ''mainnet'' 0 = Inr (sampleWallet 0 ''UQa0'' 5)"
  by (simp add: getLedgerWalletInfo_def getLedgerWalletAddress_def getLedgerAccountPathByIndex_def
      sampleWallets_def sampleWallet_def VERSION_def)

lemma three_info1: "getLedgerWalletInfo (sampleWallets [''UQa0'', ''UQa1'', ''UQa2'']
     [(''UQa0'', 5), (''UQa1'', 0), (''UQa2'', 3)]) ''mainnet'' 1 = Inr (sampleWallet 1 ''UQa1'' 0)"
  by (simp add: getLedgerWalletInfo_def getLedgerWalletAddress_def getLedgerAccountPathByIndex_def
      sampleWallets_def sampleWallet_def VERSION_def)

lemma single_info0: "getLedgerWalletInfo (sampleWallets [''UQa0''] [(''UQa0'', 0)]) ''mainnet'' 0
     = Inr (sampleWallet 0 ''UQa0'' 0)"
  by (simp add: getLedgerWalletInfo_def getLedgerWalletAddress_def getLedgerAccountPathByIndex_def
      sampleWallets_def sampleWallet_def VERSION_def)

text \<open>
  Claim C5, as the code has it. When the first address scanned is fresh and has a balance
  other than 0 and the next one is fresh and has balance 0, discovery returns exactly the
  first account: the address with balance 0 ends the scan and is recorded only when
  nothing has been recorded yet. When the first address scanned is fresh and has balance
  0, discovery returns exactly that account. A list that discovery returns is never
  empty.
\<close>

theorem discovery_stops_at_first_empty:
  "(getLedgerWalletInfo w network i = Inr a0 \<and> address a0 \<notin> set imported \<and> balance a0 \<noteq> 0 \<and>
    getLedgerWalletInfo w network (i + 1) = Inr a1 \<and> address a1 \<notin> set imported \<and> balance a1 = 0
      \<longrightarrow> getNextLedgerWallets w network (i - 1) imported = Some (Inr [a0])) \<and>
   (getLedgerWalletInfo w network i = Inr a0 \<and> address a0 \<notin> set imported \<and> balance a0 = 0
      \<longrightarrow> getNextLedgerWallets w network (i - 1) imported = Some (Inr [a0])) \<and>
   (\<forall>ws. getNextLedgerWallets w network i imported = Some (Inr ws) \<longrightarrow> ws \<noteq> [])"
proof (intro conjI impI allI)
  assume h: "getLedgerWalletInfo w network i = Inr a0 \<and> address a0 \<notin> set imported \<and>
    balance a0 \<noteq> 0 \<and> getLedgerWalletInfo w network (i + 1) = Inr a1 \<and>
    address a1 \<notin> set imported \<and> balance a1 = 0"
  then have "scanLedgerWallets w network imported i []
      = scanLedgerWallets w network imported (i + 1) ([] @ [a0])"
    using scanLedgerWallets_record [of w network i a0 imported "[]"] by simp
  also from h have "\<dots> = Some (Inr (if [] @ [a0] = [] then [a1] else [] @ [a0]))"
    using scanLedgerWallets_stop [of w network "i + 1" a1 imported "[] @ [a0]"] by simp
  finally show "getNextLedgerWallets w network (i - 1) imported = Some (Inr [a0])"
    by (simp add: getNextLedgerWallets_def)
next
  assume h: "getLedgerWalletInfo w network i = Inr a0 \<and> address a0 \<notin> set imported \<and>
    balance a0 = 0"
  then have "scanLedgerWallets w network imported i [] = Some (Inr (if [] = [] then [a0] else []))"
    using scanLedgerWallets_stop [of w network i a0 imported "[]"] by simp
  then show "getNextLedgerWallets w network (i - 1) imported = Some (Inr [a0])"
    by (simp add: getNextLedgerWallets_def)
next
  fix ws
  assume "getNextLedgerWallets w network i imported = Some (Inr ws)"
  then show "ws \<noteq> []"
    unfolding getNextLedgerWallets_def by (rule scanLedgerWallets_nonempty)
qed

theorem discovery_stops_at_first_empty_witness:
  "getNextLedgerWallets (sampleWallets [''UQa0'', ''UQa1'', ''UQa2'']
       [(''UQa0'', 5), (''UQa1'', 0), (''UQa2'', 3)]) ''mainnet'' (- 1) []
     = Some (Inr [sampleWallet 0 ''UQa0'' 5]) \<and>
   getNextLedgerWallets (sampleWallets [''UQa0''] [(''UQa0'', 0)]) ''mainnet'' (- 1) []
     = Some (Inr [sampleWallet 0 ''UQa0'' 0]) \<and>
   [sampleWallet 0 ''UQa0'' 0] \<noteq> []"
  using discovery_stops_at_first_empty [of "sampleWallets [''UQa0'', ''UQa1'', ''UQa2'']
       [(''UQa0'', 5), (''UQa1'', 0), (''UQa2'', 3)]" "''mainnet''" 0
       "sampleWallet 0 ''UQa0'' 5" "[]" "sampleWallet 1 ''UQa1'' 0"]
    discovery_stops_at_first_empty [of "sampleWallets [''UQa0''] [(''UQa0'', 0)]" "''mainnet''" 0
       "sampleWallet 0 ''UQa0'' 0" "[]"]
    three_info0 three_info1 single_info0
  by (simp add: sampleWallet_def)

text \<open>
  Claim C5 as it is stated fails: on three fresh addresses with the balances 5, 0 and 3
  and nothing imported, discovery returns the first account alone, not the first two.
\<close>

theorem discovery_three_wallets_counterexample:
  "getNextLedgerWallets (sampleWallets [''UQa0'', ''UQa1'', ''UQa2'']
       [(''UQa0'', 5), (''UQa1'', 0), (''UQa2'', 3)]) ''mainnet'' (- 1) []
     = Some (Inr [sampleWallet 0 ''UQa0'' 5]) \<and>
   getNextLedgerWallets (sampleWallets [''UQa0'', ''UQa1'', ''UQa2'']
       [(''UQa0'', 5), (''UQa1'', 0), (''UQa2'', 3)]) ''mainnet'' (- 1) []
     \<noteq> Some (Inr [sampleWallet 0 ''UQa0'' 5, sampleWallet 1 ''UQa1'' 0])"
  by (simp add: getNextLedgerWallets_def scanLedgerWallets.simps three_info0 three_info1
      sampleWallet_def)

subsection \<open>Connecting\<close>

declare connectHID_loop.simps [simp del] connectUSB_loop.simps [simp del]

lemma connectHID_loop_no_device:
  "\<forall>j. i \<le> j \<and> j < ATTEMPTS \<longrightarrow> hidList t j = Inr [] \<and> hidCreate t j = Inr () \<Longrightarrow>
   connectHID_loop t i fx =
     (Inl (Error ''Failed to connect''),
      fx @ concat (replicate (ATTEMPTS - i)
             [Called ''TransportWebHID.list'', Called ''TransportWebHID.create'', Paused PAUSE]))"
proof (induction "ATTEMPTS - i" arbitrary: i fx)
  case 0
  then have "\<not> i < ATTEMPTS" by simp
  with 0(1) show ?case by (subst connectHID_loop.simps) simp
next
  case (Suc n)
  from Suc(2) have lt: "i < ATTEMPTS" and n: "n = ATTEMPTS - (i + 1)" by arith+
  from Suc(3) lt have here: "hidList t i = Inr []" "hidCreate t i = Inr ()" by simp_all
  have later: "\<forall>j. i + 1 \<le> j \<and> j < ATTEMPTS \<longrightarrow> hidList t j = Inr [] \<and> hidCreate t j = Inr ()"
    using Suc(3) by simp
  have "connectHID_loop t i fx = connectHID_loop t (i + 1)
      (fx @ [Called ''TransportWebHID.list'', Called ''TransportWebHID.create'', Paused PAUSE])"
    using lt here by (subst connectHID_loop.simps) simp
  also note Suc(1) [OF n later]
  finally have run: "connectHID_loop t i fx =
     (Inl (Error ''Failed to connect''),
      (fx @ [Called ''TransportWebHID.list'', Called ''TransportWebHID.create'', Paused PAUSE]) @
      concat (replicate (ATTEMPTS - (i + 1))
             [Called ''TransportWebHID.list'', Called ''TransportWebHID.create'', Paused PAUSE]))" .
  from lt have "ATTEMPTS - i = Suc (ATTEMPTS - (i + 1))" by arith
  then have "replicate (ATTEMPTS - i)
        [Called ''TransportWebHID.list'', Called ''TransportWebHID.create'', Paused PAUSE]
      = [Called ''TransportWebHID.list'', Called ''TransportWebHID.create'', Paused PAUSE]
        # replicate (ATTEMPTS - (i + 1))
            [Called ''TransportWebHID.list'', Called ''TransportWebHID.create'', Paused PAUSE]"
    by (simp only: replicate_Suc)
  with run show ?case by simp
qed

lemma connectUSB_loop_no_device:
  "\<forall>j. i \<le> j \<and> j < ATTEMPTS \<longrightarrow> usbList t j = Inr [] \<and> usbCreate t j = Inr () \<Longrightarrow>
   connectUSB_loop t i fx =
     (Inl (Error ''Failed to connect''),
      fx @ concat (replicate (ATTEMPTS - i)
             [Called ''TransportWebUSB.list'', Called ''TransportWebUSB.create'', Paused PAUSE]))"
proof (induction "ATTEMPTS - i" arbitrary: i fx)
  case 0
  then have "\<not> i < ATTEMPTS" by simp
  with 0(1) show ?case by (subst connectUSB_loop.simps) simp
next
  case (Suc n)
  from Suc(2) have lt: "i < ATTEMPTS" and n: "n = ATTEMPTS - (i + 1)" by arith+
  from Suc(3) lt have here: "usbList t i = Inr []" "usbCreate t i = Inr ()" by simp_all
  have later: "\<forall>j. i + 1 \<le> j \<and> j < ATTEMPTS \<longrightarrow> usbList t j = Inr [] \<and> usbCreate t j = Inr ()"
    using Suc(3) by simp
  have "connectUSB_loop t i fx = connectUSB_loop t (i + 1)
      (fx @ [Called ''TransportWebUSB.list'', Called ''TransportWebUSB.create'', Paused PAUSE])"
    using lt here by (subst connectUSB_loop.simps) simp
  also note Suc(1) [OF n later]
  finally have run: "connectUSB_loop t i fx =
     (Inl (Error ''Failed to connect''),
      (fx @ [Called ''TransportWebUSB.list'', Called ''TransportWebUSB.create'', Paused PAUSE]) @
      concat (replicate (ATTEMPTS - (i + 1))
             [Called ''TransportWebUSB.list'', Called ''TransportWebUSB.create'', Paused PAUSE]))" .
  from lt have "ATTEMPTS - i = Suc (ATTEMPTS - (i + 1))" by arith
  then have "replicate (ATTEMPTS - i)
        [Called ''TransportWebUSB.list'', Called ''TransportWebUSB.create'', Paused PAUSE]
      = [Called ''TransportWebUSB.list'', Called ''TransportWebUSB.create'', Paused PAUSE]
        # replicate (ATTEMPTS - (i + 1))
            [Called ''TransportWebUSB.list'', Called ''TransportWebUSB.create'', Paused PAUSE]"
    by (simp only: replicate_Suc)
  with run show ?case by simp
qed

lemma connectHID_loop_effects:
  "listCalls (snd (connectHID_loop t i fx)) \<le> listCalls fx + (ATTEMPTS - i) \<and>
   (Called ''TransportWebUSB.isSupported'' \<in> set (snd (connectHID_loop t i fx))
      \<longrightarrow> Called ''TransportWebUSB.isSupported'' \<in> set fx)"
proof (induction t i fx rule: connectHID_loop.induct)
  case (1 t i fx)
  show ?case
    using 1 by (subst (1 2) connectHID_loop.simps)
      (auto simp: listCalls_def split: sum.splits list.splits)
qed

lemma connectUSB_loop_effects:
  "listCalls (snd (connectUSB_loop t i fx)) \<le> listCalls fx + (ATTEMPTS - i)"
proof (induction t i fx rule: connectUSB_loop.induct)
  case (1 t i fx)
  show ?case
    using 1 by (subst connectUSB_loop.simps)
      (auto simp: listCalls_def split: sum.splits list.splits option.splits)
qed

lemma listCalls_simps [simp]:
  "listCalls [] = 0"
  "listCalls (Called ''TransportWebHID.isSupported'' # fx) = listCalls fx"
  "listCalls (Called ''TransportWebUSB.isSupported'' # fx) = listCalls fx"
  "listCalls (fx @ [Logged a b]) = listCalls fx"
  by (simp_all add: listCalls_def)

lemma length_rounds: "length (concat (replicate n [a, b, c])) = 3 * n"
  by (induction n) simp_all

text \<open>
  Claim C8. \<open>connectLedger\<close> asks first whether HID is supported and asks about USB only
  when HID is not. When neither is supported it logs that and returns \<open>false\<close> without
  looking for a device. When the supported kind never lists a device, it makes \<open>ATTEMPTS\<close>
  rounds of \<open>list\<close>, \<open>create\<close> and a pause of \<open>PAUSE\<close>, then the connect function throws
  \<open>Error('Failed to connect')\<close>, which \<open>connectLedger\<close> logs before it returns \<open>false\<close>.
  The loops are total functions, and in every environment a run makes at most \<open>ATTEMPTS\<close>
  calls of \<open>list\<close>.
\<close>

theorem connect_is_bounded:
  "(hidIsSupported t = Inr False \<and> usbIsSupported t = Inr False \<longrightarrow>
      connectLedger t s =
        (False, s, [Called ''TransportWebHID.isSupported'', Called ''TransportWebUSB.isSupported'',
                    Logged ''connectLedger: HID and/or USB are not supported'' None])) \<and>
   (hidIsSupported t = Inr True \<and>
    (\<forall>i<ATTEMPTS. hidList t i = Inr [] \<and> hidCreate t i = Inr ()) \<longrightarrow>
      connectLedger t s =
        (False, s,
         [Called ''TransportWebHID.isSupported''] @
         concat (replicate ATTEMPTS
           [Called ''TransportWebHID.list'', Called ''TransportWebHID.create'', Paused PAUSE]) @
         [Logged ''connectLedger'' (Some (Error ''Failed to connect''))])) \<and>
   (hidIsSupported t = Inr False \<and> usbIsSupported t = Inr True \<and>
    (\<forall>i<ATTEMPTS. usbList t i = Inr [] \<and> usbCreate t i = Inr ()) \<longrightarrow>
      connectLedger t s =
        (False, s,
         [Called ''TransportWebHID.isSupported'', Called ''TransportWebUSB.isSupported''] @
         concat (replicate ATTEMPTS
           [Called ''TransportWebUSB.list'', Called ''TransportWebUSB.create'', Paused PAUSE]) @
         [Logged ''connectLedger'' (Some (Error ''Failed to connect''))])) \<and>
   listCalls (snd (snd (connectLedger t s))) \<le> ATTEMPTS \<and>
   (Called ''TransportWebUSB.isSupported'' \<in> set (snd (snd (connectLedger t s))) \<longrightarrow>
      hidIsSupported t = Inr False)"
proof (intro conjI impI)
  assume "hidIsSupported t = Inr False \<and> usbIsSupported t = Inr False"
  then show "connectLedger t s =
        (False, s, [Called ''TransportWebHID.isSupported'', Called ''TransportWebUSB.isSupported'',
                    Logged ''connectLedger: HID and/or USB are not supported'' None])"
    by (simp add: connectLedger_def)
next
  assume h: "hidIsSupported t = Inr True \<and>
    (\<forall>i<ATTEMPTS. hidList t i = Inr [] \<and> hidCreate t i = Inr ())"
  then have "connectHID t = (Inl (Error ''Failed to connect''),
      [] @ concat (replicate (ATTEMPTS - 0)
        [Called ''TransportWebHID.list'', Called ''TransportWebHID.create'', Paused PAUSE]))"
    unfolding connectHID_def by (intro connectHID_loop_no_device) simp
  with h show "connectLedger t s =
        (False, s,
         [Called ''TransportWebHID.isSupported''] @
         concat (replicate ATTEMPTS
           [Called ''TransportWebHID.list'', Called ''TransportWebHID.create'', Paused PAUSE]) @
         [Logged ''connectLedger'' (Some (Error ''Failed to connect''))])"
    by (simp add: connectLedger_def connected_def)
next
  assume h: "hidIsSupported t = Inr False \<and> usbIsSupported t = Inr True \<and>
    (\<forall>i<ATTEMPTS. usbList t i = Inr [] \<and> usbCreate t i = Inr ())"
  then have "connectUSB t = (Inl (Error ''Failed to connect''),
      [] @ concat (replicate (ATTEMPTS - 0)
        [Called ''TransportWebUSB.list'', Called ''TransportWebUSB.create'', Paused PAUSE]))"
    unfolding connectUSB_def by (intro connectUSB_loop_no_device) simp
  with h show "connectLedger t s =
        (False, s,
         [Called ''TransportWebHID.isSupported'', Called ''TransportWebUSB.isSupported''] @
         concat (replicate ATTEMPTS
           [Called ''TransportWebUSB.list'', Called ''TransportWebUSB.create'', Paused PAUSE]) @
         [Logged ''connectLedger'' (Some (Error ''Failed to connect''))])"
    by (simp add: connectLedger_def connected_def)
next
  have hid: "listCalls (snd (connectHID t)) \<le> ATTEMPTS"
    using connectHID_loop_effects [of t 0 "[]"] by (simp add: connectHID_def)
  have usb: "listCalls (snd (connectUSB t)) \<le> ATTEMPTS"
    using connectUSB_loop_effects [of t 0 "[]"] by (simp add: connectUSB_def)
  show "listCalls (snd (snd (connectLedger t s))) \<le> ATTEMPTS"
    using hid usb
    by (auto simp: connectLedger_def connected_def listCalls_def split: sum.splits)
next
  assume "Called ''TransportWebUSB.isSupported'' \<in> set (snd (snd (connectLedger t s)))"
  moreover have "Called ''TransportWebUSB.isSupported'' \<notin> set (snd (connectHID t))"
    using connectHID_loop_effects [of t 0 "[]"] by (simp add: connectHID_def)
  ultimately show "hidIsSupported t = Inr False"
    by (auto simp: connectLedger_def connected_def split: sum.splits if_splits)
qed

theorem connect_is_bounded_witness:
  "connectLedger (noDevice False False) \<lparr> transport = None, tonTransport = None \<rparr> =
     (False, \<lparr> transport = None, tonTransport = None \<rparr>,
      [Called ''TransportWebHID.isSupported'', Called ''TransportWebUSB.isSupported'',
       Logged ''connectLedger: HID and/or USB are not supported'' None]) \<and>
   fst (connectLedger (noDevice True True) \<lparr> transport = None, tonTransport = None \<rparr>) = False \<and>
   length (snd (snd (connectLedger (noDevice True True)
                       \<lparr> transport = None, tonTransport = None \<rparr>))) = 32 \<and>
   fst (connectLedger (noDevice False True) \<lparr> transport = None, tonTransport = None \<rparr>) = False \<and>
   length (snd (snd (connectLedger (noDevice False True)
                       \<lparr> transport = None, tonTransport = None \<rparr>))) = 33"
proof -
  let ?s = "\<lparr> transport = None, tonTransport = None \<rparr> :: string session"
  have a: "hidIsSupported (noDevice False False) = Inr False \<and>
           usbIsSupported (noDevice False False) = Inr False"
    by (simp add: noDevice_def)
  have b: "hidIsSupported (noDevice True True) = Inr True \<and>
    (\<forall>i<ATTEMPTS. hidList (noDevice True True) i = Inr [] \<and> hidCreate (noDevice True True) i = Inr ())"
    by (simp add: noDevice_def)
  have c: "hidIsSupported (noDevice False True) = Inr False \<and>
    usbIsSupported (noDevice False True) = Inr True \<and>
    (\<forall>i<ATTEMPTS. usbList (noDevice False True) i = Inr [] \<and> usbCreate (noDevice False True) i = Inr ())"
    by (simp add: noDevice_def)
  from connect_is_bounded [of "noDevice False False" ?s] a
  have 1: "connectLedger (noDevice False False) ?s =
     (False, ?s, [Called ''TransportWebHID.isSupported'', Called ''TransportWebUSB.isSupported'',
       Logged ''connectLedger: HID and/or USB are not supported'' None])" by blast
  from connect_is_bounded [of "noDevice True True" ?s] b
  have 2: "connectLedger (noDevice True True) ?s =
        (False, ?s,
         [Called ''TransportWebHID.isSupported''] @
         concat (replicate ATTEMPTS
           [Called ''TransportWebHID.list'', Called ''TransportWebHID.create'', Paused PAUSE]) @
         [Logged ''connectLedger'' (Some (Error ''Failed to connect''))])" by blast
  from connect_is_bounded [of "noDevice False True" ?s] c
  have 3: "connectLedger (noDevice False True) ?s =
        (False, ?s,
         [Called ''TransportWebHID.isSupported'', Called ''TransportWebUSB.isSupported''] @
         concat (replicate ATTEMPTS
           [Called ''TransportWebUSB.list'', Called ''TransportWebUSB.create'', Paused PAUSE]) @
         [Logged ''connectLedger'' (Some (Error ''Failed to connect''))])" by blast
  show ?thesis
    by (simp add: 1 2 3 length_rounds ATTEMPTS_def)
qed

subsection \<open>Payloads and the single-transfer submitter\<close>

lemma prepareOption_transfer_bounce:
  "prepareOption e S i m = Inr r \<Longrightarrow> isTokenOrNftTransfer (payload m) \<Longrightarrow> bounce r"
  by (cases "payload m" rule: isTokenOrNftTransfer.cases)
     (auto simp: prepareOption_def split: sum.splits)

lemma batch_calls_prepared:
  assumes "r \<in> set (snd (signLedgerTransactions e acc messages sq))"
  shows "\<exists>S k. k < length messages \<and> prepareOption e S k (messages ! k) = Inr r"
proof -
  from assms obtain path fr S opts where S: "prepareOptions e S 0 messages = Inr opts"
    and r: "r \<in> set (snd (signLoop e path fr opts messages (ATTEMPTS + length opts) 0 0 [] []))"
    by (auto simp: signLedgerTransactions_def split: sum.splits)
  from r signLoop_calls_subset [of e path fr opts messages "ATTEMPTS + length opts" 0 0 "[]" "[]"]
  have "r \<in> set opts" by auto
  then obtain k where k: "k < length opts" "opts ! k = r" by (auto simp: in_set_conv_nth)
  with prepareOptions_length [OF S] prepareOptions_nth [OF S, of k] show ?thesis by auto
qed

lemma submit_requests:
  assumes "r \<in> set (fst (snd (submitLedgerTransfer e se options slug0 ltp)))"
  shows "\<exists>p dest. submitPrepare e se options = Inr p \<and> Address_parse e (p_toAddress p) = Inr dest \<and>
           bounce r = p_isBounceable p \<and> req_payload r = p_payload p \<and> to r = dest"
  using assms
  by (auto simp: submitLedgerTransfer_def submitRequest_def Let_def split: sum.splits)

lemma submitPrepare_payload:
  assumes "submitPrepare e se options = Inr p"
  shows "\<exists>fr b. submitPayload e se options (parseAccountId se (o_accountId options)) fr b
           = Inr (p_toAddress p, p_amount p, p_payload p, p_isBounceable p)"
  using assms
  by (fastforce simp: submitPrepare_def Let_def split: sum.splits)

lemma submitPayload_token_bounce:
  "truthy (tokenAddress options) \<Longrightarrow>
   submitPayload e se options network fr b = Inr (dest, amt, pl, bn) \<Longrightarrow> bn"
  by (auto simp: submitPayload_def split: sum.splits)

lemma transfer_run:
  "\<exists>r0 r1. snd (signLedgerTransactions sampleEnv ''acc'' transferMessages (Some 5)) = [r0, r1]"
  by (simp add: signLedgerTransactions_def getLedgerAccountPath_def getLedgerAccountPathByIndex_def
      startSeqno_def transferMessages_def prepareOption_def declaredBounce_def stateInitOf_def
      cellOrNull_def sampleEnv_def sampleParse_def sampleParseFriendly_def signLoop.simps
      ATTEMPTS_def Let_def)

lemma transfer_prepared:
  "\<exists>r. prepareOption sampleEnv 5 0 (transferMessages ! 0) = Inr r"
  by (simp add: transferMessages_def prepareOption_def declaredBounce_def stateInitOf_def
      cellOrNull_def sampleEnv_def sampleParse_def sampleParseFriendly_def)

lemma token_submit_run:
  "\<exists>r. fst (snd (submitLedgerTransfer sampleEnv sampleSubmitEnv
                   (sampleOptions (Some ''EQminter'') None) ''toncoin'' id)) = [r]"
  by (simp add: submitLedgerTransfer_def submitPrepare_def submitPayload_def
      buildLedgerTokenTransfer_def getLedgerAccountPath_def getLedgerAccountPathByIndex_def
      sampleOptions_def sampleSubmitEnv_def sampleEnv_def sampleParse_def sampleParseFriendly_def
      Let_def)




lemma submitPayload_comment:
  "\<not> truthy (tokenAddress options) \<Longrightarrow> o_comment options = Some text \<Longrightarrow> text \<noteq> [] \<Longrightarrow>
   submitPayload e se options network fr b =
     (if isValidLedgerComment e text
      then Inr (o_toAddress options, o_amount options, Some (LedgerComment text), b)
      else Inl (Error ''Unsupported format''))"
  by (simp add: submitPayload_def)

lemma submit_throws_iff:
  "fst (submitLedgerTransfer e se options slug0 ltp) = Inl err
     \<longleftrightarrow> submitPrepare e se options = Inl err"
  by (auto simp: submitLedgerTransfer_def Let_def split: sum.splits)

lemma submit_thrown:
  "submitPrepare e se options = Inl err \<Longrightarrow>
   submitLedgerTransfer e se options slug0 ltp = (Inl err, [], [])"
  by (simp add: submitLedgerTransfer_def)


lemma longComment_refused:
  "\<not> isValidLedgerComment sampleEnv longComment" "longComment \<noteq> []"
  by (simp_all add: sampleEnv_def longComment_def)


lemmas sample_submit_defs =
  submitPrepare_def submitPayload_def buildLedgerTokenTransfer_def getLedgerAccountPath_def
  getLedgerAccountPathByIndex_def sampleOptions_def sampleSubmitEnv_def sampleEnv_def
  sampleParse_def sampleParseFriendly_def Let_def

lemma sample_steps:
  "waitLastTransfer sampleEnv ''acc'' = Inr () \<and>
   fetchAddress sampleEnv ''acc'' = Inr ''UQme'' \<and>
   getLedgerAccountPath sampleEnv ''acc'' = Inr [44, 607, 0, 0, 0, 0] \<and>
   getWalletInfo sampleSubmitEnv (parseAccountId sampleSubmitEnv ''acc'') ''UQme'' = Inr (7, 1000)"
  by (simp add: sample_submit_defs)

lemma broken_prepared:
  "\<exists>p. submitPrepare brokenEnv sampleSubmitEnv (sampleOptions None None) = Inr p \<and>
       p_toAddress p = ''UQbob''"
  by (simp add: sample_submit_defs brokenEnv_def)

lemma offline_prepared:
  "\<exists>p. submitPrepare sampleEnv offlineEnv (sampleOptions None None) = Inr p \<and>
       p_toAddress p = ''UQbob''"
  by (simp add: sample_submit_defs offlineEnv_def)

subsection \<open>Claims about payloads and the single-transfer submitter\<close>

text \<open>
  Claim C6. A request that the batch signer prepares for a fungible-token
  (\<open>tokens:transfer\<close>) or a non-fungible (\<open>nft:transfer\<close>) payload has \<open>bounce = true\<close>,
  whatever the destination address declares; so has every request that a batch of such
  messages sends to the device, and every request that \<open>submitLedgerTransfer\<close> sends when
  a token address is given.
\<close>

theorem token_and_nft_always_bounce:
  "(prepareOption e S i m = Inr r \<and> isTokenOrNftTransfer (payload m) \<longrightarrow> bounce r) \<and>
   ((\<forall>m\<in>set messages. isTokenOrNftTransfer (payload m)) \<and>
    r \<in> set (snd (signLedgerTransactions e accountId messages seqnoArg)) \<longrightarrow> bounce r) \<and>
   (truthy (tokenAddress options) \<and>
    r \<in> set (fst (snd (submitLedgerTransfer e se options slug0 localTransactionParams)))
      \<longrightarrow> bounce r)"
proof (intro conjI impI)
  assume "prepareOption e S i m = Inr r \<and> isTokenOrNftTransfer (payload m)"
  then show "bounce r" by (auto dest: prepareOption_transfer_bounce)
next
  assume h: "(\<forall>m\<in>set messages. isTokenOrNftTransfer (payload m)) \<and>
    r \<in> set (snd (signLedgerTransactions e accountId messages seqnoArg))"
  then obtain S' k where k: "k < length messages"
      "prepareOption e S' k (messages ! k) = Inr r"
    using batch_calls_prepared by blast
  from h k(1) have "isTokenOrNftTransfer (payload (messages ! k))" by simp
  with k(2) show "bounce r" by (rule prepareOption_transfer_bounce)
next
  assume h: "truthy (tokenAddress options) \<and>
    r \<in> set (fst (snd (submitLedgerTransfer e se options slug0 localTransactionParams)))"
  then obtain p where p: "submitPrepare e se options = Inr p" "bounce r = p_isBounceable p"
    using submit_requests by blast
  from submitPrepare_payload [OF p(1)] h have "p_isBounceable p"
    by (auto dest: submitPayload_token_bounce)
  with p(2) show "bounce r" by simp
qed

theorem token_and_nft_always_bounce_witness:
  "(\<exists>r. prepareOption sampleEnv 5 0 (transferMessages ! 0) = Inr r \<and> bounce r) \<and>
   length (snd (signLedgerTransactions sampleEnv ''acc'' transferMessages (Some 5))) = 2 \<and>
   bounce (snd (signLedgerTransactions sampleEnv ''acc'' transferMessages (Some 5)) ! 0) \<and>
   bounce (snd (signLedgerTransactions sampleEnv ''acc'' transferMessages (Some 5)) ! 1) \<and>
   length (fst (snd (submitLedgerTransfer sampleEnv sampleSubmitEnv
                       (sampleOptions (Some ''EQminter'') None) ''toncoin'' id))) = 1 \<and>
   bounce (fst (snd (submitLedgerTransfer sampleEnv sampleSubmitEnv
                       (sampleOptions (Some ''EQminter'') None) ''toncoin'' id)) ! 0)"
proof -
  from transfer_prepared obtain r where r: "prepareOption sampleEnv 5 0 (transferMessages ! 0) = Inr r"
    by blast
  from transfer_run obtain r0 r1 where
    run: "snd (signLedgerTransactions sampleEnv ''acc'' transferMessages (Some 5)) = [r0, r1]"
    by blast
  from token_submit_run obtain q where
    sub: "fst (snd (submitLedgerTransfer sampleEnv sampleSubmitEnv
                   (sampleOptions (Some ''EQminter'') None) ''toncoin'' id)) = [q]" by blast
  have m0: "isTokenOrNftTransfer (payload (transferMessages ! 0))"
    by (simp add: transferMessages_def)
  have all: "\<forall>m\<in>set transferMessages. isTokenOrNftTransfer (payload m)"
    by (simp add: transferMessages_def)
  have tok: "truthy (tokenAddress (sampleOptions (Some ''EQminter'') None))"
    by (simp add: sampleOptions_def)
  from token_and_nft_always_bounce [of sampleEnv 5 0 "transferMessages ! 0" r transferMessages "''acc''" "Some 5"
      "sampleOptions (Some ''EQminter'') None" sampleSubmitEnv "''toncoin''" id] r m0
  have 1: "bounce r" by blast
  from token_and_nft_always_bounce [of sampleEnv 5 0 "transferMessages ! 0" r0 transferMessages "''acc''" "Some 5"
      "sampleOptions (Some ''EQminter'') None" sampleSubmitEnv "''toncoin''" id]
    all run
  have 2: "bounce r0" by simp
  from token_and_nft_always_bounce [of sampleEnv 5 0 "transferMessages ! 0" r1 transferMessages "''acc''" "Some 5"
      "sampleOptions (Some ''EQminter'') None" sampleSubmitEnv "''toncoin''" id]
    all run
  have 3: "bounce r1" by simp
  from token_and_nft_always_bounce [of sampleEnv 5 0 "transferMessages ! 0" q transferMessages "''acc''" "Some 5"
      "sampleOptions (Some ''EQminter'') None" sampleSubmitEnv "''toncoin''" id] tok sub
  have 4: "bounce q" by simp
  from r 1 2 3 4 run sub show ?thesis by auto
qed








lemma submitPrepare_destination:
  assumes "\<forall>s pa. Address_parseFriendly e s = Inr pa \<longrightarrow> (\<exists>a. Address_parse e s = Inr a)"
    and "\<forall>network owner token w.
           resolveTokenWalletAddress se network owner token = Inr w
             \<longrightarrow> (\<exists>a. Address_parse e w = Inr a)"
    and "submitPrepare e se options = Inr p"
  shows "\<exists>dest. Address_parse e (p_toAddress p) = Inr dest"
proof -
  from assms(3) obtain fr pa where
    pf: "Address_parseFriendly e (o_toAddress options) = Inr pa"
    and sp: "submitPayload e se options (parseAccountId se (o_accountId options)) fr (fst pa)
               = Inr (p_toAddress p, p_amount p, p_payload p, p_isBounceable p)"
    by (fastforce simp: submitPrepare_def Let_def split: sum.splits)
  show ?thesis
  proof (cases "truthy (tokenAddress options)")
    case True
    with sp obtain w where
      "resolveTokenWalletAddress se (parseAccountId se (o_accountId options)) fr
         (the (tokenAddress options)) = Inr w" "p_toAddress p = w"
      by (auto simp: submitPayload_def buildLedgerTokenTransfer_def Let_def
          split: sum.splits if_splits)
    with assms(2) show ?thesis by blast
  next
    case False
    with sp have "p_toAddress p = o_toAddress options"
      by (auto simp: submitPayload_def split: if_splits)
    with assms(1) pf show ?thesis by auto
  qed
qed

text \<open>
  Claim C10. The library and the backend are taken to be correct: \<open>Address.parse\<close> accepts
  every string that \<open>Address.parseFriendly\<close> accepts, and a token wallet address that the
  backend resolves is an address. Then an exception leaves \<open>submitLedgerTransfer\<close>
  exactly when it is raised before the signing step, and nothing is sent or logged: so
  do, once the wallet state has been fetched, a destination that \<open>Address.parseFriendly\<close>
  refuses, a refused comment (\<open>'Unsupported format'\<close>) and a token whose minter differs
  (\<open>'Invalid contract'\<close>). Whatever is logged was raised by the signing call or by the
  broadcast, one request was sent and the result is \<open>undefined\<close>; and every failure of
  the signing call or of the broadcast ends so.
\<close>

theorem submit_errors_before_try_propagate:
  assumes "\<forall>s pa. Address_parseFriendly e s = Inr pa \<longrightarrow> (\<exists>a. Address_parse e s = Inr a)"
    and "\<forall>network owner token w.
           resolveTokenWalletAddress se network owner token = Inr w
             \<longrightarrow> (\<exists>a. Address_parse e w = Inr a)"
  shows
  "(fst (submitLedgerTransfer e se options slug0 localTransactionParams) = Inl err
      \<longleftrightarrow> submitPrepare e se options = Inl err) \<and>
   (submitPrepare e se options = Inl err \<longrightarrow>
      submitLedgerTransfer e se options slug0 localTransactionParams = (Inl err, [], [])) \<and>
   (waitLastTransfer e (o_accountId options) = Inr () \<and>
    fetchAddress e (o_accountId options) = Inr fromAddr \<and>
    getLedgerAccountPath e (o_accountId options) = Inr path \<and>
    getWalletInfo se (parseAccountId se (o_accountId options)) fromAddr = Inr walletInfo \<longrightarrow>
      (Address_parseFriendly e (o_toAddress options) = Inl err \<longrightarrow>
         submitLedgerTransfer e se options slug0 localTransactionParams = (Inl err, [], [])) \<and>
      (Address_parseFriendly e (o_toAddress options) = Inr parsedAddress \<and>
       \<not> truthy (tokenAddress options) \<and> o_comment options = Some cmt \<and> cmt \<noteq> [] \<and>
       \<not> isValidLedgerComment e cmt \<longrightarrow>
         submitLedgerTransfer e se options slug0 localTransactionParams
           = (Inl (Error ''Unsupported format''), [], [])) \<and>
      (Address_parseFriendly e (o_toAddress options) = Inr parsedAddress \<and>
       tokenAddress options = Some token \<and> token \<noteq> [] \<and>
       resolveTokenWalletAddress se (parseAccountId se (o_accountId options)) fromAddr token
         = Inr tokenWalletAddress \<and>
       resolveTokenMinterAddress se (parseAccountId se (o_accountId options)) tokenWalletAddress
         = Inr realTokenAddress \<and>
       token \<noteq> realTokenAddress \<longrightarrow>
         submitLedgerTransfer e se options slug0 localTransactionParams
           = (Inl (Error ''Invalid contract''), [], []))) \<and>
   (Logged name x \<in> set (snd (snd (submitLedgerTransfer e se options slug0
                                      localTransactionParams))) \<longrightarrow>
      (\<exists>p dest caught.
         submitPrepare e se options = Inr p \<and>
         Address_parse e (p_toAddress p) = Inr dest \<and>
         name = ''submitLedgerTransfer'' \<and> x = Some caught \<and>
         submitLedgerTransfer e se options slug0 localTransactionParams
           = (Inr None, [submitRequest e p dest], [Logged ''submitLedgerTransfer'' (Some caught)]) \<and>
         (signTransaction e 0 (p_path p) (submitRequest e p dest) = Inl caught \<or>
          (\<exists>b64. signTransaction e 0 (p_path p) (submitRequest e p dest) = Inr b64 \<and>
                 sendSignedTransferMessage se (o_accountId options)
                   (submitMessage options p slug0 localTransactionParams b64) = Inl caught)))) \<and>
   (submitPrepare e se options = Inr p \<longrightarrow>
      (\<exists>dest. Address_parse e (p_toAddress p) = Inr dest \<and>
         (signTransaction e 0 (p_path p) (submitRequest e p dest) = Inl err \<longrightarrow>
            submitLedgerTransfer e se options slug0 localTransactionParams
              = (Inr None, [submitRequest e p dest],
                 [Logged ''submitLedgerTransfer'' (Some err)])) \<and>
         (signTransaction e 0 (p_path p) (submitRequest e p dest) = Inr b64 \<and>
          sendSignedTransferMessage se (o_accountId options)
            (submitMessage options p slug0 localTransactionParams b64) = Inl err \<longrightarrow>
            submitLedgerTransfer e se options slug0 localTransactionParams
              = (Inr None, [submitRequest e p dest],
                 [Logged ''submitLedgerTransfer'' (Some err)]))))"
proof (intro conjI impI)
  show "fst (submitLedgerTransfer e se options slug0 localTransactionParams) = Inl err
      \<longleftrightarrow> submitPrepare e se options = Inl err" by (rule submit_throws_iff)
next
  assume "submitPrepare e se options = Inl err"
  then show "submitLedgerTransfer e se options slug0 localTransactionParams = (Inl err, [], [])"
    by (rule submit_thrown)
next
  assume H: "waitLastTransfer e (o_accountId options) = Inr () \<and>
    fetchAddress e (o_accountId options) = Inr fromAddr \<and>
    getLedgerAccountPath e (o_accountId options) = Inr path \<and>
    getWalletInfo se (parseAccountId se (o_accountId options)) fromAddr = Inr walletInfo"
    and "Address_parseFriendly e (o_toAddress options) = Inl err"
  then have "submitPrepare e se options = Inl err" by (simp add: submitPrepare_def)
  then show "submitLedgerTransfer e se options slug0 localTransactionParams = (Inl err, [], [])"
    by (rule submit_thrown)
next
  assume H: "waitLastTransfer e (o_accountId options) = Inr () \<and>
    fetchAddress e (o_accountId options) = Inr fromAddr \<and>
    getLedgerAccountPath e (o_accountId options) = Inr path \<and>
    getWalletInfo se (parseAccountId se (o_accountId options)) fromAddr = Inr walletInfo"
    and c: "Address_parseFriendly e (o_toAddress options) = Inr parsedAddress \<and>
       \<not> truthy (tokenAddress options) \<and> o_comment options = Some cmt \<and> cmt \<noteq> [] \<and>
       \<not> isValidLedgerComment e cmt"
  then have "submitPrepare e se options = Inl (Error ''Unsupported format'')"
    by (simp add: submitPrepare_def submitPayload_comment)
  then show "submitLedgerTransfer e se options slug0 localTransactionParams
           = (Inl (Error ''Unsupported format''), [], [])"
    by (rule submit_thrown)
next
  assume H: "waitLastTransfer e (o_accountId options) = Inr () \<and>
    fetchAddress e (o_accountId options) = Inr fromAddr \<and>
    getLedgerAccountPath e (o_accountId options) = Inr path \<and>
    getWalletInfo se (parseAccountId se (o_accountId options)) fromAddr = Inr walletInfo"
    and c: "Address_parseFriendly e (o_toAddress options) = Inr parsedAddress \<and>
       tokenAddress options = Some token \<and> token \<noteq> [] \<and>
       resolveTokenWalletAddress se (parseAccountId se (o_accountId options)) fromAddr token
         = Inr tokenWalletAddress \<and>
       resolveTokenMinterAddress se (parseAccountId se (o_accountId options)) tokenWalletAddress
         = Inr realTokenAddress \<and>
       token \<noteq> realTokenAddress"
  then have "submitPayload e se options (parseAccountId se (o_accountId options)) fromAddr
               (fst parsedAddress) = Inl (Error ''Invalid contract'')"
    by (simp add: submitPayload_def buildLedgerTokenTransfer_def)
  with H c have "submitPrepare e se options = Inl (Error ''Invalid contract'')"
    by (simp add: submitPrepare_def)
  then show "submitLedgerTransfer e se options slug0 localTransactionParams
           = (Inl (Error ''Invalid contract''), [], [])"
    by (rule submit_thrown)
next
  assume logged: "Logged name x \<in> set (snd (snd (submitLedgerTransfer e se options slug0
                                      localTransactionParams)))"
  then obtain p where p: "submitPrepare e se options = Inr p"
    by (cases "submitPrepare e se options") (auto simp: submitLedgerTransfer_def)
  from submitPrepare_destination [OF assms p] obtain dest where
    dest: "Address_parse e (p_toAddress p) = Inr dest" by blast
  show "\<exists>p dest caught.
         submitPrepare e se options = Inr p \<and>
         Address_parse e (p_toAddress p) = Inr dest \<and>
         name = ''submitLedgerTransfer'' \<and> x = Some caught \<and>
         submitLedgerTransfer e se options slug0 localTransactionParams
           = (Inr None, [submitRequest e p dest], [Logged ''submitLedgerTransfer'' (Some caught)]) \<and>
         (signTransaction e 0 (p_path p) (submitRequest e p dest) = Inl caught \<or>
          (\<exists>b64. signTransaction e 0 (p_path p) (submitRequest e p dest) = Inr b64 \<and>
                 sendSignedTransferMessage se (o_accountId options)
                   (submitMessage options p slug0 localTransactionParams b64) = Inl caught))"
  proof (cases "signTransaction e 0 (p_path p) (submitRequest e p dest)")
    case (Inl caught)
    with p dest logged have "name = ''submitLedgerTransfer''" "x = Some caught"
      "submitLedgerTransfer e se options slug0 localTransactionParams
         = (Inr None, [submitRequest e p dest], [Logged ''submitLedgerTransfer'' (Some caught)])"
      by (simp_all add: submitLedgerTransfer_def)
    with p dest Inl show ?thesis by blast
  next
    case (Inr b64)
    show ?thesis
    proof (cases "sendSignedTransferMessage se (o_accountId options)
                    (submitMessage options p slug0 localTransactionParams b64)")
      case (Inl caught)
      with p dest Inr logged have "name = ''submitLedgerTransfer''" "x = Some caught"
        "submitLedgerTransfer e se options slug0 localTransactionParams
           = (Inr None, [submitRequest e p dest], [Logged ''submitLedgerTransfer'' (Some caught)])"
        by (simp_all add: submitLedgerTransfer_def)
      with p dest Inr Inl show ?thesis by blast
    next
      case sent: (Inr res)
      with p dest Inr logged show ?thesis by (simp add: submitLedgerTransfer_def)
    qed
  qed
next
  assume p: "submitPrepare e se options = Inr p"
  from submitPrepare_destination [OF assms p] obtain dest where
    dest: "Address_parse e (p_toAddress p) = Inr dest" by blast
  have "signTransaction e 0 (p_path p) (submitRequest e p dest) = Inl err \<longrightarrow>
            submitLedgerTransfer e se options slug0 localTransactionParams
              = (Inr None, [submitRequest e p dest],
                 [Logged ''submitLedgerTransfer'' (Some err)])"
    using p dest by (simp add: submitLedgerTransfer_def)
  moreover have "signTransaction e 0 (p_path p) (submitRequest e p dest) = Inr b64 \<and>
          sendSignedTransferMessage se (o_accountId options)
            (submitMessage options p slug0 localTransactionParams b64) = Inl err \<longrightarrow>
            submitLedgerTransfer e se options slug0 localTransactionParams
              = (Inr None, [submitRequest e p dest],
                 [Logged ''submitLedgerTransfer'' (Some err)])"
    using p dest by (simp add: submitLedgerTransfer_def)
  ultimately show "\<exists>dest. Address_parse e (p_toAddress p) = Inr dest \<and>
         (signTransaction e 0 (p_path p) (submitRequest e p dest) = Inl err \<longrightarrow>
            submitLedgerTransfer e se options slug0 localTransactionParams
              = (Inr None, [submitRequest e p dest],
                 [Logged ''submitLedgerTransfer'' (Some err)])) \<and>
         (signTransaction e 0 (p_path p) (submitRequest e p dest) = Inr b64 \<and>
          sendSignedTransferMessage se (o_accountId options)
            (submitMessage options p slug0 localTransactionParams b64) = Inl err \<longrightarrow>
            submitLedgerTransfer e se options slug0 localTransactionParams
              = (Inr None, [submitRequest e p dest],
                 [Logged ''submitLedgerTransfer'' (Some err)]))"
    using dest by blast
qed

lemma sample_parse_agrees:
  "\<forall>s pa. Address_parseFriendly sampleEnv s = Inr pa \<longrightarrow> (\<exists>a. Address_parse sampleEnv s = Inr a)"
  "\<forall>s pa. Address_parseFriendly brokenEnv s = Inr pa \<longrightarrow> (\<exists>a. Address_parse brokenEnv s = Inr a)"
  by (auto simp: brokenEnv_def sampleEnv_def sampleParse_def sampleParseFriendly_def
      split: if_splits)

lemma sample_wallets_parse:
  "\<forall>network owner token w.
     resolveTokenWalletAddress sampleSubmitEnv network owner token = Inr w
       \<longrightarrow> (\<exists>a. Address_parse sampleEnv w = Inr a)"
  "\<forall>network owner token w.
     resolveTokenWalletAddress sampleSubmitEnv network owner token = Inr w
       \<longrightarrow> (\<exists>a. Address_parse brokenEnv w = Inr a)"
  "\<forall>network owner token w.
     resolveTokenWalletAddress offlineEnv network owner token = Inr w
       \<longrightarrow> (\<exists>a. Address_parse sampleEnv w = Inr a)"
  by (auto simp: offlineEnv_def sampleSubmitEnv_def brokenEnv_def sampleEnv_def sampleParse_def)

theorem submit_errors_before_try_propagate_witness:
  "submitLedgerTransfer sampleEnv sampleSubmitEnv
     ((sampleOptions None None) \<lparr> o_toAddress := ''garbage'' \<rparr>) ''toncoin'' id
     = (Inl (External None ''Unknown address type''), [], []) \<and>
   submitLedgerTransfer sampleEnv sampleSubmitEnv (sampleOptions None (Some longComment))
     ''toncoin'' id = (Inl (Error ''Unsupported format''), [], []) \<and>
   submitLedgerTransfer sampleEnv sampleSubmitEnv (sampleOptions (Some ''EQother'') None)
     ''toncoin'' id = (Inl (Error ''Invalid contract''), [], []) \<and>
   (\<exists>q. submitLedgerTransfer brokenEnv sampleSubmitEnv (sampleOptions None None) ''toncoin'' id
          = (Inr None, [q], [Logged ''submitLedgerTransfer'' (Some (External None ''Timeout''))])) \<and>
   (\<exists>q. submitLedgerTransfer sampleEnv offlineEnv (sampleOptions None None) ''toncoin'' id
          = (Inr None, [q], [Logged ''submitLedgerTransfer'' (Some (External None ''Offline''))]))"
proof -
  let ?g = "(sampleOptions None None) \<lparr> o_toAddress := ''garbage'' \<rparr>"
  let ?unknown = "External None ''Unknown address type''"
  note thm1 = submit_errors_before_try_propagate
    [OF sample_parse_agrees(1) sample_wallets_parse(1)]
  have acc: "o_accountId ?g = ''acc''" "o_accountId (sampleOptions t c) = ''acc''" for t c
    by (simp_all add: sampleOptions_def)
  have g: "Address_parseFriendly sampleEnv (o_toAddress ?g) = Inl ?unknown"
    by (simp add: sampleEnv_def sampleParseFriendly_def)
  from thm1 [of ?g "''toncoin''" id ?unknown "''UQme''" "[44, 607, 0, 0, 0, 0]" "(7, 1000)"]
    sample_steps g
  have 1: "submitLedgerTransfer sampleEnv sampleSubmitEnv ?g ''toncoin'' id = (Inl ?unknown, [], [])"
    by (simp add: acc)
  have c: "Address_parseFriendly sampleEnv (o_toAddress (sampleOptions None (Some longComment)))
             = Inr (False, ''bob'')"
    "\<not> truthy (tokenAddress (sampleOptions None (Some longComment)))"
    "o_comment (sampleOptions None (Some longComment)) = Some longComment"
    by (simp_all add: sampleOptions_def sampleEnv_def sampleParseFriendly_def)
  from thm1 [of "sampleOptions None (Some longComment)" "''toncoin''" id ?unknown "''UQme''"
      "[44, 607, 0, 0, 0, 0]" "(7, 1000)" "(False, ''bob'')" longComment]
    sample_steps c longComment_refused
  have 2: "submitLedgerTransfer sampleEnv sampleSubmitEnv (sampleOptions None (Some longComment))
     ''toncoin'' id = (Inl (Error ''Unsupported format''), [], [])"
    by (simp add: acc)
  have t: "Address_parseFriendly sampleEnv (o_toAddress (sampleOptions (Some ''EQother'') None))
             = Inr (False, ''bob'')"
    "tokenAddress (sampleOptions (Some ''EQother'') None) = Some ''EQother''"
    "resolveTokenWalletAddress sampleSubmitEnv (parseAccountId sampleSubmitEnv ''acc'') ''UQme''
       ''EQother'' = Inr ''EQjettonwallet''"
    "resolveTokenMinterAddress sampleSubmitEnv (parseAccountId sampleSubmitEnv ''acc'')
       ''EQjettonwallet'' = Inr ''EQminter''"
    by (simp_all add: sampleOptions_def sampleEnv_def sampleParseFriendly_def sampleSubmitEnv_def)
  from thm1 [of "sampleOptions (Some ''EQother'') None" "''toncoin''" id ?unknown "''UQme''"
      "[44, 607, 0, 0, 0, 0]" "(7, 1000)" "(False, ''bob'')" longComment "''EQother''"
      "''EQjettonwallet''" "''EQminter''"]
    sample_steps t
  have 3: "submitLedgerTransfer sampleEnv sampleSubmitEnv (sampleOptions (Some ''EQother'') None)
     ''toncoin'' id = (Inl (Error ''Invalid contract''), [], [])"
    by (simp add: acc)
  from broken_prepared obtain p' where
    p': "submitPrepare brokenEnv sampleSubmitEnv (sampleOptions None None) = Inr p'"
        "p_toAddress p' = ''UQbob''" by blast
  have bp: "Address_parse brokenEnv (p_toAddress p') = Inr ''bob''"
    "signTransaction brokenEnv 0 (p_path p') (submitRequest brokenEnv p' dest)
       = Inl (External None ''Timeout'')" for dest
    by (simp_all add: p'(2) brokenEnv_def sampleEnv_def sampleParse_def)
  from submit_errors_before_try_propagate [OF sample_parse_agrees(2) sample_wallets_parse(2),
      of "sampleOptions None None" "''toncoin''" id "External None ''Timeout''" _ _ _ _ _ _ _ _ _ _
      p'] p'(1) bp
  have 5: "\<exists>q. submitLedgerTransfer brokenEnv sampleSubmitEnv (sampleOptions None None) ''toncoin'' id
     = (Inr None, [q], [Logged ''submitLedgerTransfer'' (Some (External None ''Timeout''))])"
    by blast
  from offline_prepared obtain p'' where
    p'': "submitPrepare sampleEnv offlineEnv (sampleOptions None None) = Inr p''"
         "p_toAddress p'' = ''UQbob''" by blast
  have op: "Address_parse sampleEnv (p_toAddress p'') = Inr ''bob''"
    "signTransaction sampleEnv 0 (p_path p'') (submitRequest sampleEnv p'' dest) = Inr ''te6c''"
    "sendSignedTransferMessage offlineEnv (o_accountId (sampleOptions None None))
       (submitMessage (sampleOptions None None) p'' ''toncoin'' id ''te6c'')
       = Inl (External None ''Offline'')" for dest
    by (simp_all add: p''(2) offlineEnv_def sampleEnv_def sampleParse_def)
  from submit_errors_before_try_propagate [OF sample_parse_agrees(1) sample_wallets_parse(3),
      of "sampleOptions None None" "''toncoin''" id "External None ''Offline''" _ _ _ _ _ _ _ _ _ _
      p'' "''te6c''"] p''(1) op
  have 6: "\<exists>q. submitLedgerTransfer sampleEnv offlineEnv (sampleOptions None None) ''toncoin'' id
     = (Inr None, [q], [Logged ''submitLedgerTransfer'' (Some (External None ''Offline''))])"
    by blast
  from 1 2 3 5 6 show ?thesis by blast
qed

end
